theory Spec2Isabelle
  imports Main
begin

section \<open>The world of \<open>scripts/download_datasets.py\<close>\<close>

text \<open>
  The script is sequential I/O: it prints, touches the filesystem, and calls libraries
  (urllib, zipfile, tarfile, subprocess, kagglehub, the import system). The model threads
  a \<open>world\<close> through every method: the filesystem, and the list of effects performed so
  far, in order. Every library call whose outcome the script cannot know is an oracle of
  the environment \<open>env\<close>; an oracle answers with a value or with the exception the call
  raises. A method returns \<open>(Inl e, w)\<close> when it raises \<open>e\<close> leaving the world \<open>w\<close>, and
  \<open>(Inr v, w)\<close> when it returns \<open>v\<close>.
\<close>

subsection \<open>Paths and the filesystem\<close>

text \<open>
  A \<open>pathlib.Path\<close> is the list of its components below the filesystem root, so
  \<open>p / "GTSDB"\<close> is \<open>p @ [''GTSDB'']\<close> and \<open>p.parent\<close> is \<open>butlast p\<close> (the root is its own
  parent). File contents are byte strings. The model has no symbolic links, no
  permissions and no quota: a filesystem operation fails only for the reasons written
  out below.
\<close>

type_synonym path = "string list"

datatype node = File string | Dir

type_synonym filesystem = "path \<Rightarrow> node option"

definition parent :: "path \<Rightarrow> path" where
  "parent p = butlast p"

text \<open>\<open>str(path)\<close> of an absolute path.\<close>

definition str_path :: "path \<Rightarrow> string" where
  "str_path p = (if p = [] then ''/'' else concat (map (\<lambda>c. ''/'' @ c) p))"

text \<open>\<open>Path.exists()\<close>, \<open>Path.is_dir()\<close>; the root always is a directory.\<close>

definition exists_path :: "filesystem \<Rightarrow> path \<Rightarrow> bool" where
  "exists_path f p = (p = [] \<or> f p \<noteq> None)"

definition is_dir :: "filesystem \<Rightarrow> path \<Rightarrow> bool" where
  "is_dir f p = (p = [] \<or> f p = Some Dir)"

definition is_file :: "filesystem \<Rightarrow> path \<Rightarrow> bool" where
  "is_file f p = (case f p of Some (File c) \<Rightarrow> p \<noteq> [] | _ \<Rightarrow> False)"

subsection \<open>Exceptions\<close>

text \<open>
  \<open>KeyboardInterrupt\<close> derives from \<open>BaseException\<close> only, so \<open>except Exception\<close> does
  not catch it; every other exception the script meets derives from \<open>Exception\<close>.
  \<open>OSError\<close> stands for its subclasses too (\<open>FileNotFoundError\<close>, \<open>FileExistsError\<close>,
  \<open>IsADirectoryError\<close>, \<open>NotADirectoryError\<close>, \<open>urllib.error.URLError\<close>); \<open>ImportError\<close>
  for \<open>ModuleNotFoundError\<close>; \<open>OtherError\<close> for any other subclass of \<open>Exception\<close> a
  library raises (\<open>zipfile.BadZipFile\<close>, \<open>tarfile.ReadError\<close>,
  \<open>subprocess.CalledProcessError\<close>, ...). The string is \<open>str(e)\<close>; for the
  errors of the filesystem calls below it is shortened to the reason and the path
  (Python adds the errno and quotes the path).
\<close>

datatype exn =
    KeyboardInterrupt
  | ImportError string
  | ValueError string
  | OSError string
  | OtherError string

fun is_Exception :: "exn \<Rightarrow> bool" where
  "is_Exception KeyboardInterrupt = False"
| "is_Exception _ = True"

fun is_ImportError :: "exn \<Rightarrow> bool" where
  "is_ImportError (ImportError m) = True"
| "is_ImportError _ = False"

fun str_exn :: "exn \<Rightarrow> string" where
  "str_exn KeyboardInterrupt = ''''"
| "str_exn (ImportError m) = m"
| "str_exn (ValueError m) = m"
| "str_exn (OSError m) = m"
| "str_exn (OtherError m) = m"

subsection \<open>Effects and the world\<close>

text \<open>The three places where the script executes \<open>import kagglehub\<close> (lines 100, 114, 139).\<close>

datatype import_site = Probe | AfterPip | InSync

datatype event =
    Print string
  | Mkdir path
  | Urlretrieve string path
  | OpenRead path
  | OpenWrite path
  | ZipOpen path
  | ZipExtractall path
  | TarOpen path
  | TarExtractall path
  | Unlink path
  | Import import_site
  | CheckCall "string list"
  | DatasetDownload string
  | Copytree path path

record world =
  fs :: filesystem
  events :: "event list"

definition emit :: "event \<Rightarrow> world \<Rightarrow> world" where
  "emit e w = w\<lparr>events := events w @ [e]\<rparr>"

definition print :: "string \<Rightarrow> world \<Rightarrow> world" where
  "print s w = emit (Print s) w"

definition prints :: "string list \<Rightarrow> world \<Rightarrow> world" where
  "prints ss w = fold print ss w"

text \<open>
  The environment. \<open>http_get url\<close> is what the server answers to a GET of \<open>url\<close>;
  \<open>sha256_hexdigest cs\<close> is \<open>hexdigest()\<close> of a \<open>hashlib.sha256()\<close> object after one
  \<open>update\<close> call for each element of \<open>cs\<close>, in order;
  \<open>zip_decode\<close> and \<open>tar_decode\<close> read an archive's bytes into its members, each a
  relative path with a file's contents or a directory; \<open>import_kagglehub\<close> is the outcome
  of \<open>import kagglehub\<close> at a site; \<open>check_call\<close> the outcome of a subprocess;
  \<open>dataset_download\<close> the hub client, which returns a local path and may change the
  filesystem as it likes; \<open>sys_executable\<close> and \<open>script_file\<close> are \<open>sys.executable\<close>
  and \<open>__file__\<close>.
\<close>

record env =
  http_get :: "string \<Rightarrow> exn + string"
  sha256_hexdigest :: "string list \<Rightarrow> string"
  zip_decode :: "string \<Rightarrow> exn + (path \<times> node) list"
  tar_decode :: "string \<Rightarrow> exn + (path \<times> node) list"
  import_kagglehub :: "import_site \<Rightarrow> exn + unit"
  check_call :: "string list \<Rightarrow> exn + unit"
  dataset_download :: "string \<Rightarrow> filesystem \<Rightarrow> exn + path \<times> filesystem"
  sys_executable :: string
  script_file :: path

subsection \<open>Filesystem primitives\<close>

text \<open>
  \<open>Path.mkdir(parents=True, exist_ok=True)\<close>: every missing ancestor and the path itself
  become directories; a regular file at the path or at an ancestor raises.
\<close>

definition ancestors_or_self :: "path \<Rightarrow> path list" where
  "ancestors_or_self p = map (\<lambda>n. take n p) [1 ..< Suc (length p)]"

definition make_dirs :: "filesystem \<Rightarrow> path list \<Rightarrow> filesystem" where
  "make_dirs f ps = fold (\<lambda>q g. g(q \<mapsto> Dir)) ps f"

definition mkdir_parents :: "path \<Rightarrow> world \<Rightarrow> (exn + unit) \<times> world" where
  "mkdir_parents p w =
     (let w1 = emit (Mkdir p) w in
      if list_ex (\<lambda>q. is_file (fs w1) q) (ancestors_or_self p)
      then (Inl (OSError (''File exists: '' @ str_path p)), w1)
      else (Inr (), w1\<lparr>fs := make_dirs (fs w1) (ancestors_or_self p)\<rparr>))"

text \<open>
  \<open>open(p, 'w')\<close> or \<open>'wb'\<close>, one \<open>write\<close>, and close: the parent must be a directory and
  the path must not be one.
\<close>

definition write_file :: "path \<Rightarrow> string \<Rightarrow> world \<Rightarrow> (exn + unit) \<times> world" where
  "write_file p c w =
     (let w1 = emit (OpenWrite p) w in
      if p = [] \<or> is_dir (fs w1) p then (Inl (OSError (''Is a directory: '' @ str_path p)), w1)
      else if \<not> is_dir (fs w1) (parent p)
      then (Inl (OSError (''No such file or directory: '' @ str_path p)), w1)
      else (Inr (), w1\<lparr>fs := (fs w1)(p \<mapsto> File c)\<rparr>))"

text \<open>\<open>Path.unlink()\<close>.\<close>

definition unlink :: "path \<Rightarrow> world \<Rightarrow> (exn + unit) \<times> world" where
  "unlink p w =
     (let w1 = emit (Unlink p) w in
      if is_file (fs w1) p then (Inr (), w1\<lparr>fs := (fs w1)(p := None)\<rparr>)
      else (Inl (OSError (''Cannot unlink: '' @ str_path p)), w1))"

text \<open>
  \<open>shutil.copytree(src, dst)\<close>: \<open>dst\<close> must not exist; it and its missing ancestors are
  created, and everything below \<open>src\<close> is copied below \<open>dst\<close>.
\<close>

definition copytree :: "path \<Rightarrow> path \<Rightarrow> world \<Rightarrow> (exn + unit) \<times> world" where
  "copytree src dst w =
     (let w1 = emit (Copytree src dst) w; f = fs w1 in
      if \<not> is_dir f src then (Inl (OSError (''Not a directory: '' @ str_path src)), w1)
      else if exists_path f dst then (Inl (OSError (''File exists: '' @ str_path dst)), w1)
      else if list_ex (\<lambda>q. is_file f q) (ancestors_or_self dst)
      then (Inl (OSError (''Not a directory: '' @ str_path dst)), w1)
      else (Inr (), w1\<lparr>fs := (\<lambda>p.
              if take (length dst) p = dst
              then (if p = dst then Some Dir else f (src @ drop (length dst) p))
              else make_dirs f (ancestors_or_self dst) p)\<rparr>))"

subsection \<open>Sequencing\<close>

text \<open>Statement after statement: an exception skips what follows.\<close>

definition and_then ::
  "(exn + 'a) \<times> world \<Rightarrow> ('a \<Rightarrow> world \<Rightarrow> (exn + 'b) \<times> world) \<Rightarrow> (exn + 'b) \<times> world" where
  "and_then m k = (case m of (Inl e, w) \<Rightarrow> (Inl e, w) | (Inr v, w) \<Rightarrow> k v w)"

text \<open>\<open>try: body  except Exception as e: handler(e)\<close>.\<close>

definition try_except ::
  "(exn + 'a) \<times> world \<Rightarrow> (exn \<Rightarrow> world \<Rightarrow> (exn + 'a) \<times> world) \<Rightarrow> (exn + 'a) \<times> world" where
  "try_except body handler =
     (case body of
        (Inl e, w) \<Rightarrow> if is_Exception e then handler e w else (Inl e, w)
      | (Inr v, w) \<Rightarrow> (Inr v, w))"

section \<open>The class \<open>DatasetDownloader\<close>\<close>

record DatasetDownloader =
  data_dir :: path

subsection \<open>\<open>__init__\<close>\<close>

definition init :: "env \<Rightarrow> world \<Rightarrow> (exn + DatasetDownloader) \<times> world" where
  "init env w =
     (let d = parent (parent (script_file env)) @ [''data'', ''raw''] in
      and_then (mkdir_parents d w) (\<lambda>_ w1. (Inr \<lparr>data_dir = d\<rparr>, w1)))"

subsection \<open>\<open>verify_hash\<close>\<close>

text \<open>
  \<open>iter(lambda: f.read(4096), b"")\<close>: \<open>read(n)\<close> on a regular file returns the next \<open>n\<close>
  bytes, fewer at the end of the file, and the loop stops at the first empty read.
\<close>

function read_chunks :: "nat \<Rightarrow> string \<Rightarrow> string list" where
  "read_chunks n rest =
     (let chunk = take n rest in
      if chunk = [] then [] else chunk # read_chunks n (drop n rest))"
  by pat_completeness auto
termination
  by (relation "measure (\<lambda>(n, rest). length rest)") auto

declare read_chunks.simps [simp del]

definition verify_hash :: "env \<Rightarrow> path \<Rightarrow> string \<Rightarrow> world \<Rightarrow> (exn + bool) \<times> world" where
  "verify_hash env filepath expected_hash w =
     (let w1 = emit (OpenRead filepath) w in
      case fs w1 filepath of
        Some (File c) \<Rightarrow>
          if filepath = [] then (Inl (OSError (''Is a directory: '' @ str_path filepath)), w1)
          else (Inr (sha256_hexdigest env (read_chunks 4096 c) = expected_hash), w1)
      | Some Dir \<Rightarrow> (Inl (OSError (''Is a directory: '' @ str_path filepath)), w1)
      | None \<Rightarrow> (Inl (OSError (''No such file or directory: '' @ str_path filepath)), w1))"

subsection \<open>\<open>download_file\<close>\<close>

text \<open>
  \<open>urllib.request.urlretrieve(url, destination)\<close>: a failed request leaves the filesystem
  as it was; an answered one is written to \<open>destination\<close>, over whatever file was there.
\<close>

definition urlretrieve :: "env \<Rightarrow> string \<Rightarrow> path \<Rightarrow> world \<Rightarrow> (exn + unit) \<times> world" where
  "urlretrieve env url destination w =
     (let w1 = emit (Urlretrieve url destination) w in
      case http_get env url of
        Inl e \<Rightarrow> (Inl e, w1)
      | Inr body \<Rightarrow> write_file destination body w1)"

text \<open>Python's truth value of the parameter \<open>expected_hash\<close>: \<open>None\<close> and \<open>""\<close> are false.\<close>

fun truthy :: "string option \<Rightarrow> bool" where
  "truthy None = False"
| "truthy (Some s) = (s \<noteq> [])"

definition download_file ::
  "env \<Rightarrow> string \<Rightarrow> path \<Rightarrow> string option \<Rightarrow> world \<Rightarrow> (exn + unit) \<times> world" where
  "download_file env url destination expected_hash w =
     try_except
       (and_then (urlretrieve env url destination (print (''Downloading '' @ url @ ''...'') w))
          (\<lambda>_ w1.
             let w2 = print (''Downloaded to '' @ str_path destination) w1 in
             case expected_hash of
               None \<Rightarrow> (Inr (), w2)
             | Some h \<Rightarrow>
                 if truthy (Some h) then
                   and_then (verify_hash env destination h w2)
                     (\<lambda>ok w3.
                        if \<not> ok
                        then (Inl (ValueError (''Hash verification failed for '' @ str_path destination)), w3)
                        else (Inr (), w3))
                 else (Inr (), w2)))
       (\<lambda>e w1. (Inl e, print (''Download failed: '' @ str_exn e) w1))"

subsection \<open>\<open>extract_archive\<close>\<close>

text \<open>
  \<open>PurePath.suffix\<close>: the last component from its last dot on, when that dot is neither
  its first nor its last character; \<open>str.lower()\<close> on it.
\<close>

definition rfind_dot :: "string \<Rightarrow> nat option" where
  "rfind_dot s =
     (if CHR ''.'' \<in> set s
      then Some (length s - Suc (length (takeWhile (\<lambda>c. c \<noteq> CHR ''.'') (rev s))))
      else None)"

definition suffix :: "path \<Rightarrow> string" where
  "suffix p =
     (let name = (if p = [] then [] else last p) in
      case rfind_dot name of
        None \<Rightarrow> []
      | Some i \<Rightarrow> if 0 < i \<and> i < length name - 1 then drop i name else [])"

definition lower_char :: "char \<Rightarrow> char" where
  "lower_char c =
     (let n = (of_char c :: nat) in if 65 \<le> n \<and> n \<le> 90 then char_of (n + 32) else c)"

definition lower :: "string \<Rightarrow> string" where
  "lower s = map lower_char s"

text \<open>
  \<open>extractall(extract_to)\<close> of either library: the members in archive order, each below
  \<open>extract_to\<close>, missing directories created on the way; a member that cannot be written
  raises and leaves the earlier ones extracted.
\<close>

definition extract_member :: "path \<Rightarrow> path \<times> node \<Rightarrow> world \<Rightarrow> (exn + unit) \<times> world" where
  "extract_member extract_to m w =
     (case m of
        (rel, Dir) \<Rightarrow> mkdir_parents (extract_to @ rel) w
      | (rel, File c) \<Rightarrow>
          and_then (mkdir_parents (parent (extract_to @ rel)) w)
            (\<lambda>_ w1. write_file (extract_to @ rel) c w1))"

fun extract_members :: "path \<Rightarrow> (path \<times> node) list \<Rightarrow> world \<Rightarrow> (exn + unit) \<times> world" where
  "extract_members extract_to [] w = (Inr (), w)"
| "extract_members extract_to (m # ms) w =
     and_then (extract_member extract_to m w) (\<lambda>_ w1. extract_members extract_to ms w1)"

text \<open>\<open>with zipfile.ZipFile(archive_path, 'r') as zip_ref: zip_ref.extractall(extract_to)\<close>.\<close>

definition zip_extractall :: "env \<Rightarrow> path \<Rightarrow> path \<Rightarrow> world \<Rightarrow> (exn + unit) \<times> world" where
  "zip_extractall env archive_path extract_to w =
     (let w1 = emit (ZipOpen archive_path) w in
      case fs w1 archive_path of
        Some (File c) \<Rightarrow>
          (case zip_decode env c of
             Inl e \<Rightarrow> (Inl e, w1)
           | Inr ms \<Rightarrow> extract_members extract_to ms (emit (ZipExtractall extract_to) w1))
      | _ \<Rightarrow> (Inl (OSError (''Cannot open: '' @ str_path archive_path)), w1))"

text \<open>\<open>with tarfile.open(archive_path, 'r:*') as tar_ref: tar_ref.extractall(extract_to)\<close>.\<close>

definition tar_extractall :: "env \<Rightarrow> path \<Rightarrow> path \<Rightarrow> world \<Rightarrow> (exn + unit) \<times> world" where
  "tar_extractall env archive_path extract_to w =
     (let w1 = emit (TarOpen archive_path) w in
      case fs w1 archive_path of
        Some (File c) \<Rightarrow>
          (case tar_decode env c of
             Inl e \<Rightarrow> (Inl e, w1)
           | Inr ms \<Rightarrow> extract_members extract_to ms (emit (TarExtractall extract_to) w1))
      | _ \<Rightarrow> (Inl (OSError (''Cannot open: '' @ str_path archive_path)), w1))"

definition extract_archive :: "env \<Rightarrow> path \<Rightarrow> path \<Rightarrow> world \<Rightarrow> (exn + unit) \<times> world" where
  "extract_archive env archive_path extract_to w =
     (let w1 = print (''Extracting '' @ str_path archive_path @ ''...'') w in
      if lower (suffix archive_path) = ''.zip'' then
        and_then (zip_extractall env archive_path extract_to w1)
          (\<lambda>_ w2. (Inr (), print (''Extracted to '' @ str_path extract_to) w2))
      else if lower (suffix archive_path) \<in> set [''.tar'', ''.gz'', ''.tgz''] then
        and_then (tar_extractall env archive_path extract_to w1)
          (\<lambda>_ w2. (Inr (), print (''Extracted to '' @ str_path extract_to) w2))
      else (Inl (ValueError (''Unsupported archive format: '' @ suffix archive_path)), w1))"

subsection \<open>\<open>download_gtsdb\<close>\<close>

definition gtsdb_url :: string where
  "gtsdb_url =
     ''https://sid.erda.dk/public/archives/ff17dc924eba88d5d01a807357d6614c/FullIJCNN2013.zip''"

definition gtsdb_fallback :: "exn \<Rightarrow> string list" where
  "gtsdb_fallback e =
     [''Error downloading GTSDB: '' @ str_exn e,
      ''You can manually download from:'',
      ''https://sid.erda.dk/public/archives/ff17dc924eba88d5d01a807357d6614c/published-archive.html'']"

text \<open>The \<open>try\<close> block of lines 81 to 90.\<close>

definition gtsdb_try :: "env \<Rightarrow> DatasetDownloader \<Rightarrow> world \<Rightarrow> (exn + unit) \<times> world" where
  "gtsdb_try env self w =
     (let filepath = data_dir self @ [''FullIJCNN2013.zip''] in
      and_then
        (download_file env gtsdb_url filepath None
           (prints [''Downloading GTSDB Full IJCNN 2013 dataset (~2.7GB)...'',
                    ''This may take several minutes depending on your connection.''] w))
        (\<lambda>_ w2. and_then (extract_archive env filepath (data_dir self) w2)
           (\<lambda>_ w3. and_then (unlink filepath w3)
              (\<lambda>_ w4. (Inr (), print ''GTSDB download and extraction completed!'' w4)))))"

definition download_gtsdb :: "env \<Rightarrow> DatasetDownloader \<Rightarrow> world \<Rightarrow> (exn + unit) \<times> world" where
  "download_gtsdb env self w =
     (let gtsdb_dir = data_dir self @ [''GTSDB''] in
      if exists_path (fs w) gtsdb_dir
      then (Inr (), print ''GTSDB already exists, skipping download.'' w)
      else
        try_except
          (gtsdb_try env self (print ''=== Downloading GTSDB Dataset ==='' w))
          (\<lambda>e w2. (Inr (), prints (gtsdb_fallback e) w2)))"

subsection \<open>\<open>install_kagglehub\<close>\<close>

definition pipx_command :: "string list" where
  "pipx_command = [''pipx'', ''install'', ''kagglehub'', ''--include-deps'']"

definition pip_command :: "env \<Rightarrow> string list" where
  "pip_command env =
     [sys_executable env, ''-m'', ''pip'', ''install'', ''kagglehub'', ''--break-system-packages'']"

definition do_import :: "env \<Rightarrow> import_site \<Rightarrow> world \<Rightarrow> (exn + unit) \<times> world" where
  "do_import env site w = (import_kagglehub env site, emit (Import site) w)"

definition do_check_call :: "env \<Rightarrow> string list \<Rightarrow> world \<Rightarrow> (exn + unit) \<times> world" where
  "do_check_call env cmd w = (check_call env cmd, emit (CheckCall cmd) w)"

definition install_kagglehub :: "env \<Rightarrow> world \<Rightarrow> (exn + bool) \<times> world" where
  "install_kagglehub env w =
     (case do_import env Probe w of
        (Inr _, w1) \<Rightarrow> (Inr True, w1)
      | (Inl e, w1) \<Rightarrow>
          if \<not> is_ImportError e then (Inl e, w1)
          else
            try_except
              (and_then
                 (do_check_call env pipx_command
                    (print ''kagglehub not found. Installing via pipx...'' w1))
                 (\<lambda>_ w2. (Inr True, w2)))
              (\<lambda>e1 w2.
                 try_except
                   (and_then
                      (do_check_call env (pip_command env)
                         (prints [''pipx install failed: '' @ str_exn e1,
                                  ''Trying pip with --break-system-packages...''] w2))
                      (\<lambda>_ w3. and_then (do_import env AfterPip w3) (\<lambda>_ w4. (Inr True, w4))))
                   (\<lambda>e2 w3.
                      (Inr False,
                       prints [''Failed to install kagglehub: '' @ str_exn e2,
                               ''Please install manually:'',
                               ''pipx install kagglehub --include-deps'',
                               ''or: pip install kagglehub --break-system-packages''] w3))))"

subsection \<open>\<open>download_lisa\<close>\<close>

definition lisa_id :: string where
  "lisa_id = ''mbornoe/lisa-traffic-light-dataset''"

definition lisa_fallback :: "exn \<Rightarrow> string list" where
  "lisa_fallback e =
     [''Error downloading LISA dataset: '' @ str_exn e,
      ''You can manually download from:'',
      ''https://www.kaggle.com/datasets/mbornoe/lisa-traffic-light-dataset'',
      ''Or use: kagglehub.dataset_download('' @ [CHR 0x27] @ lisa_id @ [CHR 0x27] @ '')'']"

definition do_dataset_download :: "env \<Rightarrow> string \<Rightarrow> world \<Rightarrow> (exn + path) \<times> world" where
  "do_dataset_download env ident w =
     (let w1 = emit (DatasetDownload ident) w in
      case dataset_download env ident (fs w1) of
        Inl e \<Rightarrow> (Inl e, w1)
      | Inr (p, f) \<Rightarrow> (Inr p, w1\<lparr>fs := f\<rparr>))"

text \<open>The \<open>try\<close> block of lines 138 to 159.\<close>

definition lisa_try :: "env \<Rightarrow> DatasetDownloader \<Rightarrow> world \<Rightarrow> (exn + unit) \<times> world" where
  "lisa_try env self w =
     (let lisa_dir = data_dir self @ [''LISA''] in
      and_then (do_import env InSync w)
        (\<lambda>_ w2. and_then
           (do_dataset_download env lisa_id
              (prints [''Downloading LISA traffic light dataset from Kaggle...'',
                       ''This may take several minutes depending on your connection.''] w2))
           (\<lambda>downloaded_path w3.
              let w4 = print (''Dataset downloaded to: '' @ str_path downloaded_path) w3 in
              if exists_path (fs w4) downloaded_path then
                and_then
                  (if is_dir (fs w4) downloaded_path
                   then copytree downloaded_path lisa_dir w4
                   else extract_archive env downloaded_path lisa_dir w4)
                  (\<lambda>_ w5. (Inr (), print ''LISA dataset setup completed!'' w5))
              else
                (Inr (), print (''Downloaded path '' @ str_path downloaded_path
                                  @ '' not found.'') w4))))"

definition download_lisa :: "env \<Rightarrow> DatasetDownloader \<Rightarrow> world \<Rightarrow> (exn + unit) \<times> world" where
  "download_lisa env self w =
     (let lisa_dir = data_dir self @ [''LISA''] in
      if exists_path (fs w) lisa_dir
      then (Inr (), print ''LISA already exists, skipping download.'' w)
      else
        and_then (install_kagglehub env (print ''=== Downloading LISA Dataset from Kaggle ==='' w))
          (\<lambda>installed w1.
             if \<not> installed
             then (Inr (), prints [''Error: Could not install kagglehub.'',
                                   ''Please install manually: pip install kagglehub''] w1)
             else
               try_except (lisa_try env self w1)
                 (\<lambda>e w2. (Inr (), prints (lisa_fallback e) w2))))"

subsection \<open>\<open>create_readme\<close>\<close>

text \<open>The triple-quoted text, line by line; every line ends in a newline.\<close>

definition readme_lines :: "string list" where
  "readme_lines =
     [''# Datasets'',
      '''',
      ''This directory contains the computer vision datasets for this project.'',
      '''',
      ''## GTSDB (German Traffic Sign Detection Benchmark)'',
      ''- Source: http://benchmark.ini.rub.de/'',
      ''- Size: ~2.7GB'',
      ''- Contains: German traffic sign images with annotations'',
      '''',
      ''## LISA (Laboratory for Intelligent & Safe Automobiles)'',
      ''- Source: https://www.kaggle.com/datasets/mbornoe/lisa-traffic-light-dataset'',
      ''- Size: ~4.9GB  '',
      ''- Contains: US traffic sign images with annotations'',
      ''- Downloaded via: kagglehub'',
      '''',
      ''## Setup'',
      ''To download the datasets, run:'',
      ''```bash'',
      ''python scripts/download_datasets.py'',
      ''```'',
      '''',
      ''Note: Some datasets require manual download due to license agreements.'']"

definition readme_content :: string where
  "readme_content = concat (map (\<lambda>l. l @ [CHR 0x0A]) readme_lines)"

definition create_readme :: "DatasetDownloader \<Rightarrow> world \<Rightarrow> (exn + unit) \<times> world" where
  "create_readme self w = write_file (data_dir self @ [''README.md'']) readme_content w"

subsection \<open>\<open>run\<close>\<close>

definition final_status :: "string list" where
  "final_status =
     [CHR 0x0A # ''=== Download Process Complete ==='',
      ''Note: Some datasets may require manual download.'',
      ''Check the README.md in the data/raw directory for details.'']"

definition run :: "env \<Rightarrow> DatasetDownloader \<Rightarrow> world \<Rightarrow> (exn + unit) \<times> world" where
  "run env self w =
     and_then
       (create_readme self
          (prints [''Starting dataset download process...'',
                   ''Data directory: '' @ str_path (data_dir self)] w))
       (\<lambda>_ w1. and_then (download_gtsdb env self w1)
          (\<lambda>_ w2. and_then (download_lisa env self w2)
             (\<lambda>_ w3. (Inr (), prints final_status w3))))"

subsection \<open>The script's entry point\<close>

text \<open>The \<open>try\<close> block of lines 214 to 216.\<close>

definition script_body :: "env \<Rightarrow> world \<Rightarrow> (exn + unit) \<times> world" where
  "script_body env w = and_then (init env w) (\<lambda>downloader w1. run env downloader w1)"

text \<open>The process's exit code and the world it leaves.\<close>

definition main :: "env \<Rightarrow> world \<Rightarrow> nat \<times> world" where
  "main env w =
     (case script_body env w of
        (Inr _, w') \<Rightarrow> (0, w')
      | (Inl KeyboardInterrupt, w') \<Rightarrow>
          (1, print (CHR 0x0A # ''Download interrupted by user.'') w')
      | (Inl e, w') \<Rightarrow> (1, print (''Error: '' @ str_exn e) w'))"

section \<open>A concrete environment\<close>

text \<open>
  A project at \<open>/proj\<close> whose server answers the GTSDB URL with the eight bytes
  \<open>PK-a.txt\<close>, which the zip library reads as an archive of one member \<open>a.txt\<close>; the
  hub client leaves the dataset in \<open>/cache/lisa\<close>. The digest oracle is SHA-256 on the
  byte strings used below (the downloaded body, and the empty string for all else).
\<close>

definition demo_body :: string where
  "demo_body = ''PK-a.txt''"

definition demo_digest :: string where
  "demo_digest = ''d540bae3a9bf637a60d07c02a5265c88b2390b2013eef57948a10f7c25fa20a0''"

definition demo_env :: env where
  "demo_env = \<lparr>
     http_get = (\<lambda>u. if u = gtsdb_url then Inr demo_body
                      else Inl (OSError ''HTTP Error 404: Not Found'')),
     sha256_hexdigest = (\<lambda>cs. if concat cs = demo_body then demo_digest
        else ''e3b0c44298fc1c149afbf4c8996fb92427ae41e4649b934ca495991b7852b855''),
     zip_decode = (\<lambda>c. if c = demo_body then Inr [([''a.txt''], File ''hello'')]
                        else Inl (OtherError ''File is not a zip file'')),
     tar_decode = (\<lambda>c. Inl (OtherError ''file could not be opened successfully'')),
     import_kagglehub = (\<lambda>s. Inr ()),
     check_call = (\<lambda>c. Inr ()),
     dataset_download = (\<lambda>i f. Inr ([''cache'', ''lisa''],
        f([''cache''] \<mapsto> Dir, [''cache'', ''lisa''] \<mapsto> Dir,
          [''cache'', ''lisa'', ''x.csv''] \<mapsto> File ''1''))),
     sys_executable = ''/usr/bin/python3'',
     script_file = [''proj'', ''scripts'', ''download_datasets.py'']\<rparr>"

definition demo_self :: DatasetDownloader where
  "demo_self = \<lparr>data_dir = [''proj'', ''data'', ''raw'']\<rparr>"

text \<open>The project with an empty raw-data root.\<close>

definition demo_fs :: filesystem where
  "demo_fs = Map.empty([''proj''] \<mapsto> Dir, [''proj'', ''data''] \<mapsto> Dir,
                       [''proj'', ''data'', ''raw''] \<mapsto> Dir)"

definition demo_world :: world where
  "demo_world = \<lparr>fs = demo_fs, events = []\<rparr>"

text \<open>The same with both dataset directories present.\<close>

definition synced_world :: world where
  "synced_world = \<lparr>fs = demo_fs([''proj'', ''data'', ''raw'', ''GTSDB''] \<mapsto> Dir,
                                  [''proj'', ''data'', ''raw'', ''LISA''] \<mapsto> Dir), events = []\<rparr>"

text \<open>The raw-data root holding the downloaded archive.\<close>

definition archive_world :: world where
  "archive_world = \<lparr>fs = demo_fs([''proj'', ''data'', ''raw'', ''FullIJCNN2013.zip'']
                                   \<mapsto> File demo_body), events = []\<rparr>"

text \<open>The project before its first run: no \<open>data\<close> directory yet.\<close>

definition fresh_world :: world where
  "fresh_world = \<lparr>fs = Map.empty([''proj''] \<mapsto> Dir, [''proj'', ''scripts''] \<mapsto> Dir,
       [''proj'', ''scripts'', ''download_datasets.py''] \<mapsto> File ''''), events = []\<rparr>"






section \<open>What a call performs\<close>

text \<open>
  \<open>performs P w w'\<close>: the world \<open>w'\<close> has the effects of \<open>w\<close> and then further ones,
  each satisfying \<open>P\<close>. \<open>performed w w'\<close> are those further effects.
\<close>

definition performed :: "world \<Rightarrow> world \<Rightarrow> event list" where
  "performed w w' = drop (length (events w)) (events w')"

definition performs :: "(event \<Rightarrow> bool) \<Rightarrow> world \<Rightarrow> world \<Rightarrow> bool" where
  "performs P w w' =
     (take (length (events w)) (events w') = events w \<and> list_all P (performed w w'))"

text \<open>The effects of the archive libraries and of the filesystem calls they make.\<close>

fun zip_event :: "event \<Rightarrow> bool" where
  "zip_event (ZipOpen p) = True"
| "zip_event (ZipExtractall p) = True"
| "zip_event (Mkdir p) = True"
| "zip_event (OpenWrite p) = True"
| "zip_event _ = False"

fun tar_event :: "event \<Rightarrow> bool" where
  "tar_event (TarOpen p) = True"
| "tar_event (TarExtractall p) = True"
| "tar_event (Mkdir p) = True"
| "tar_event (OpenWrite p) = True"
| "tar_event _ = False"

fun is_print :: "event \<Rightarrow> bool" where
  "is_print (Print s) = True"
| "is_print _ = False"

text \<open>The one effect of \<open>verify_hash\<close>: opening the file to hash it.\<close>

fun hash_event :: "event \<Rightarrow> bool" where
  "hash_event (OpenRead p) = True"
| "hash_event _ = False"

text \<open>What the direct-dataset sync can perform, and what the hub-dataset sync can.\<close>

fun gtsdb_event :: "event \<Rightarrow> bool" where
  "gtsdb_event (Print s) = True"
| "gtsdb_event (Urlretrieve u p) = True"
| "gtsdb_event (Unlink p) = True"
| "gtsdb_event e = (zip_event e \<or> tar_event e)"

fun lisa_event :: "event \<Rightarrow> bool" where
  "lisa_event (Print s) = True"
| "lisa_event (Import s) = True"
| "lisa_event (CheckCall c) = True"
| "lisa_event (DatasetDownload i) = True"
| "lisa_event (Copytree s d) = True"
| "lisa_event e = (zip_event e \<or> tar_event e)"

section \<open>Properties\<close>

subsection \<open>The idempotency guard\<close>

lemma gtsdb_skip:
  "exists_path (fs w) (data_dir self @ [''GTSDB'']) \<Longrightarrow>
   download_gtsdb env self w
     = (Inr (), w\<lparr>events := events w @ [Print ''GTSDB already exists, skipping download.'']\<rparr>)"
  by (simp add: download_gtsdb_def print_def emit_def)

lemma lisa_skip:
  "exists_path (fs w) (data_dir self @ [''LISA'']) \<Longrightarrow>
   download_lisa env self w
     = (Inr (), w\<lparr>events := events w @ [Print ''LISA already exists, skipping download.'']\<rparr>)"
  by (simp add: download_lisa_def print_def emit_def)

text \<open>
  C1. When a dataset's target subdirectory of the raw-data root exists, its sync returns
  at once: the filesystem is what it was, and the one effect performed is the line
  printed, so no network call, subprocess, import or hub call is issued.
\<close>

theorem sync_existing_target_is_noop:
  "(exists_path (fs w) (data_dir self @ [''GTSDB'']) \<longrightarrow>
      fst (download_gtsdb env self w) = Inr ()
      \<and> fs (snd (download_gtsdb env self w)) = fs w
      \<and> events (snd (download_gtsdb env self w))
          = events w @ [Print ''GTSDB already exists, skipping download.''])
   \<and> (exists_path (fs w) (data_dir self @ [''LISA'']) \<longrightarrow>
      fst (download_lisa env self w) = Inr ()
      \<and> fs (snd (download_lisa env self w)) = fs w
      \<and> events (snd (download_lisa env self w))
          = events w @ [Print ''LISA already exists, skipping download.''])"
  by (simp add: gtsdb_skip lisa_skip)

theorem sync_existing_target_is_noop_witness:
  "exists_path (fs synced_world) (data_dir demo_self @ [''GTSDB''])
   \<and> exists_path (fs synced_world) (data_dir demo_self @ [''LISA''])
   \<and> fst (download_gtsdb demo_env demo_self synced_world) = Inr ()
   \<and> fs (snd (download_gtsdb demo_env demo_self synced_world)) = fs synced_world
   \<and> events (snd (download_gtsdb demo_env demo_self synced_world))
       = [Print ''GTSDB already exists, skipping download.'']
   \<and> fst (download_lisa demo_env demo_self synced_world) = Inr ()
   \<and> fs (snd (download_lisa demo_env demo_self synced_world)) = fs synced_world
   \<and> events (snd (download_lisa demo_env demo_self synced_world))
       = [Print ''LISA already exists, skipping download.'']"
proof -
  have g: "exists_path (fs synced_world) (data_dir demo_self @ [''GTSDB''])"
    by (simp add: exists_path_def synced_world_def demo_self_def)
  have l: "exists_path (fs synced_world) (data_dir demo_self @ [''LISA''])"
    by (simp add: exists_path_def synced_world_def demo_self_def)
  have e: "events synced_world = []"
    by (simp add: synced_world_def)
  show ?thesis
    using g l e sync_existing_target_is_noop [of synced_world demo_self demo_env] by simp
qed

text \<open>
  C10. The guard is \<open>exists()\<close>, which does not ask what kind of entry is there: with a
  regular file at the target path either sync returns at once, the filesystem as it
  was, having performed what it performs with a directory there.
\<close>

theorem guard_tests_existence_only:
  "fst (download_gtsdb env self (w\<lparr>fs := (fs w)(data_dir self @ [''GTSDB''] \<mapsto> File c)\<rparr>)) = Inr ()
   \<and> fs (snd (download_gtsdb env self (w\<lparr>fs := (fs w)(data_dir self @ [''GTSDB''] \<mapsto> File c)\<rparr>)))
       = (fs w)(data_dir self @ [''GTSDB''] \<mapsto> File c)
   \<and> events (snd (download_gtsdb env self (w\<lparr>fs := (fs w)(data_dir self @ [''GTSDB''] \<mapsto> File c)\<rparr>)))
       = events w @ [Print ''GTSDB already exists, skipping download.'']
   \<and> events (snd (download_gtsdb env self (w\<lparr>fs := (fs w)(data_dir self @ [''GTSDB''] \<mapsto> File c)\<rparr>)))
       = events (snd (download_gtsdb env self (w\<lparr>fs := (fs w)(data_dir self @ [''GTSDB''] \<mapsto> Dir)\<rparr>)))
   \<and> fst (download_lisa env self (w\<lparr>fs := (fs w)(data_dir self @ [''LISA''] \<mapsto> File c)\<rparr>)) = Inr ()
   \<and> fs (snd (download_lisa env self (w\<lparr>fs := (fs w)(data_dir self @ [''LISA''] \<mapsto> File c)\<rparr>)))
       = (fs w)(data_dir self @ [''LISA''] \<mapsto> File c)
   \<and> events (snd (download_lisa env self (w\<lparr>fs := (fs w)(data_dir self @ [''LISA''] \<mapsto> File c)\<rparr>)))
       = events w @ [Print ''LISA already exists, skipping download.'']
   \<and> events (snd (download_lisa env self (w\<lparr>fs := (fs w)(data_dir self @ [''LISA''] \<mapsto> File c)\<rparr>)))
       = events (snd (download_lisa env self (w\<lparr>fs := (fs w)(data_dir self @ [''LISA''] \<mapsto> Dir)\<rparr>)))"
  by (simp add: gtsdb_skip lisa_skip exists_path_def)

theorem guard_tests_existence_only_witness:
  "fst (download_gtsdb demo_env demo_self
          (demo_world\<lparr>fs := (fs demo_world)([''proj'', ''data'', ''raw'', ''GTSDB''] \<mapsto> File ''x'')\<rparr>))
     = Inr ()
   \<and> events (snd (download_gtsdb demo_env demo_self
          (demo_world\<lparr>fs := (fs demo_world)([''proj'', ''data'', ''raw'', ''GTSDB''] \<mapsto> File ''x'')\<rparr>)))
     = [Print ''GTSDB already exists, skipping download.'']
   \<and> fst (download_lisa demo_env demo_self
          (demo_world\<lparr>fs := (fs demo_world)([''proj'', ''data'', ''raw'', ''LISA''] \<mapsto> File ''x'')\<rparr>))
     = Inr ()
   \<and> events (snd (download_lisa demo_env demo_self
          (demo_world\<lparr>fs := (fs demo_world)([''proj'', ''data'', ''raw'', ''LISA''] \<mapsto> File ''x'')\<rparr>)))
     = [Print ''LISA already exists, skipping download.'']"
proof -
  have d: "data_dir demo_self = [''proj'', ''data'', ''raw'']"
    by (simp add: demo_self_def)
  have e: "events demo_world = []"
    by (simp add: demo_world_def)
  show ?thesis
    using guard_tests_existence_only [of demo_env demo_self demo_world "''x''"]
    by (simp add: d e)
qed

subsection \<open>Reading a file in chunks\<close>

lemma read_chunks_Nil: "read_chunks n [] = []"
  by (subst read_chunks.simps) simp

lemma read_chunks_step:
  "0 < n \<Longrightarrow> s \<noteq> [] \<Longrightarrow> read_chunks n s = take n s # read_chunks n (drop n s)"
  by (subst read_chunks.simps) (simp add: Let_def)

lemma read_chunks_short:
  "0 < n \<Longrightarrow> s \<noteq> [] \<Longrightarrow> length s \<le> n \<Longrightarrow> read_chunks n s = [s]"
  by (simp add: read_chunks_step read_chunks_Nil)

lemma concat_read_chunks: "0 < n \<Longrightarrow> concat (read_chunks n s) = s"
proof (induction n s rule: read_chunks.induct)
  case (1 n rest)
  show ?case
  proof (cases "rest = []")
    case True
    then show ?thesis by (simp add: read_chunks_Nil)
  next
    case False
    with 1 show ?thesis by (simp add: read_chunks_step)
  qed
qed

lemma read_chunks_sizes:
  "0 < n \<Longrightarrow> ch \<in> set (read_chunks n s) \<Longrightarrow> 0 < length ch \<and> length ch \<le> n"
proof (induction n s rule: read_chunks.induct)
  case (1 n rest)
  show ?case
  proof (cases "rest = []")
    case True
    with 1(3) show ?thesis by (simp add: read_chunks_Nil)
  next
    case False
    have step: "read_chunks n rest = take n rest # read_chunks n (drop n rest)"
      using 1(2) False by (rule read_chunks_step)
    have tk: "take n rest \<noteq> []" using 1(2) False by simp
    from 1(3) step have "ch = take n rest \<or> ch \<in> set (read_chunks n (drop n rest))"
      by simp
    then show ?thesis
    proof
      assume "ch = take n rest"
      then show ?thesis using 1(2) False by simp
    next
      assume "ch \<in> set (read_chunks n (drop n rest))"
      then show ?thesis using 1(1) [OF refl tk 1(2)] by simp
    qed
  qed
qed

lemma read_chunks_full:
  "0 < n \<Longrightarrow> ch \<in> set (butlast (read_chunks n s)) \<Longrightarrow> length ch = n"
proof (induction n s rule: read_chunks.induct)
  case (1 n rest)
  show ?case
  proof (cases "rest = []")
    case True
    with 1(3) show ?thesis by (simp add: read_chunks_Nil)
  next
    case False
    have step: "read_chunks n rest = take n rest # read_chunks n (drop n rest)"
      using 1(2) False by (rule read_chunks_step)
    have tk: "take n rest \<noteq> []" using 1(2) False by simp
    show ?thesis
    proof (cases "drop n rest = []")
      case True
      then have "read_chunks n rest = [take n rest]"
        using step by (simp add: read_chunks_Nil)
      with 1(3) show ?thesis by simp
    next
      case d: False
      then have long: "n < length rest" by simp
      have "read_chunks n (drop n rest) \<noteq> []"
        using read_chunks_step [OF 1(2) d] by simp
      then have "butlast (read_chunks n rest)
          = take n rest # butlast (read_chunks n (drop n rest))"
        using step by simp
      with 1(3) have "ch = take n rest \<or> ch \<in> set (butlast (read_chunks n (drop n rest)))"
        by simp
      then show ?thesis
      proof
        assume "ch = take n rest"
        then show ?thesis using long by simp
      next
        assume "ch \<in> set (butlast (read_chunks n (drop n rest)))"
        then show ?thesis using 1(1) [OF refl tk 1(2)] by simp
      qed
    qed
  qed
qed

lemma demo_chunks: "read_chunks 4096 demo_body = [demo_body]"
  by (rule read_chunks_short) (simp_all add: demo_body_def)

lemma verify_hash_file:
  "fs w filepath = Some (File c) \<Longrightarrow> filepath \<noteq> [] \<Longrightarrow>
   verify_hash env filepath expected_hash w
     = (Inr (sha256_hexdigest env (read_chunks 4096 c) = expected_hash),
        emit (OpenRead filepath) w)"
  by (simp add: verify_hash_def emit_def)

text \<open>
  C5. On a regular file, \<open>verify_hash\<close> feeds the hash object the file's contents in
  chunks of 4096 bytes (every chunk but the last has exactly 4096 bytes, none is empty,
  and together they are the contents), and returns whether the hex digest is the
  expected string. When the hash object's digest is a function of the concatenation of
  what it was fed, as \<open>hashlib\<close> promises of SHA-256, the result is whether the digest
  of the contents is the expected string. The filesystem is left as it was.
\<close>

theorem verify_hash_chunked_digest:
  assumes c: "fs w filepath = Some (File c)" and ne: "filepath \<noteq> []"
  shows "fst (verify_hash env filepath expected_hash w)
         = Inr (sha256_hexdigest env (read_chunks 4096 c) = expected_hash)
     \<and> concat (read_chunks 4096 c) = c
     \<and> (\<forall>ch \<in> set (read_chunks 4096 c). 0 < length ch \<and> length ch \<le> 4096)
     \<and> (\<forall>ch \<in> set (butlast (read_chunks 4096 c)). length ch = 4096)
     \<and> ((\<forall>cs. sha256_hexdigest env cs = digest (concat cs)) \<longrightarrow>
           fst (verify_hash env filepath expected_hash w) = Inr (digest c = expected_hash))
     \<and> fs (snd (verify_hash env filepath expected_hash w)) = fs w"
proof -
  note r = verify_hash_file [OF c ne, of env expected_hash]
  have pos: "(0::nat) < 4096" by simp
  have cc: "concat (read_chunks 4096 c) = c"
    using pos by (rule concat_read_chunks)
  have sz: "\<forall>ch \<in> set (read_chunks 4096 c). 0 < length ch \<and> length ch \<le> 4096"
    using read_chunks_sizes [OF pos] by blast
  have fl: "\<forall>ch \<in> set (butlast (read_chunks 4096 c)). length ch = 4096"
    using read_chunks_full [OF pos] by blast
  have dg: "(\<forall>cs. sha256_hexdigest env cs = digest (concat cs)) \<longrightarrow>
           fst (verify_hash env filepath expected_hash w) = Inr (digest c = expected_hash)"
    using cc by (simp add: r)
  have f: "fs (snd (verify_hash env filepath expected_hash w)) = fs w"
    by (simp add: r emit_def)
  have v: "fst (verify_hash env filepath expected_hash w)
         = Inr (sha256_hexdigest env (read_chunks 4096 c) = expected_hash)"
    by (simp add: r)
  from v cc sz fl dg f show ?thesis by blast
qed

theorem verify_hash_chunked_digest_witness:
  "fs archive_world [''proj'', ''data'', ''raw'', ''FullIJCNN2013.zip''] = Some (File demo_body)
   \<and> fst (verify_hash demo_env [''proj'', ''data'', ''raw'', ''FullIJCNN2013.zip''] demo_digest
            archive_world) = Inr True
   \<and> fst (verify_hash demo_env [''proj'', ''data'', ''raw'', ''FullIJCNN2013.zip'']
            ''D540BAE3A9BF637A60D07C02A5265C88B2390B2013EEF57948A10F7C25FA20A0'' archive_world) = Inr False"
proof -
  have c: "fs archive_world [''proj'', ''data'', ''raw'', ''FullIJCNN2013.zip'']
             = Some (File demo_body)"
    by (simp add: archive_world_def)
  have ne: "[''proj'', ''data'', ''raw'', ''FullIJCNN2013.zip''] \<noteq> []" by simp
  have d: "sha256_hexdigest demo_env [demo_body] = demo_digest"
    by (simp add: demo_env_def)
  have u: "''D540BAE3A9BF637A60D07C02A5265C88B2390B2013EEF57948A10F7C25FA20A0'' \<noteq> demo_digest"
    by (simp add: demo_digest_def)
  show ?thesis
    using c d u verify_hash_chunked_digest [OF c ne, of demo_env demo_digest]
      verify_hash_chunked_digest [OF c ne, of demo_env
        "''D540BAE3A9BF637A60D07C02A5265C88B2390B2013EEF57948A10F7C25FA20A0''"]
    by (simp add: demo_chunks)
qed

subsection \<open>The README\<close>

lemma write_file_ok:
  "p \<noteq> [] \<Longrightarrow> \<not> is_dir (fs w) p \<Longrightarrow> is_dir (fs w) (parent p) \<Longrightarrow>
   write_file p c w = (Inr (), w\<lparr>fs := (fs w)(p \<mapsto> File c), events := events w @ [OpenWrite p]\<rparr>)"
  by (simp add: write_file_def emit_def)

text \<open>
  C8. \<open>create_readme\<close> has no existence check: whenever the raw-data root is a directory
  (as \<open>__init__\<close> leaves it) and no directory sits at \<open>README.md\<close>, the call returns and
  \<open>README.md\<close> holds the fixed text, whether the path was free or held a file, and
  whatever that file contained; nothing else in the filesystem changes.
\<close>

theorem create_readme_overwrites:
  assumes "is_dir (fs w) (data_dir self)"
  shows "(\<not> is_dir (fs w) (data_dir self @ [''README.md'']) \<longrightarrow>
            fst (create_readme self w) = Inr ()
            \<and> fs (snd (create_readme self w))
                = (fs w)(data_dir self @ [''README.md''] \<mapsto> File readme_content))
     \<and> fst (create_readme self (w\<lparr>fs := (fs w)(data_dir self @ [''README.md''] \<mapsto> File old)\<rparr>))
          = Inr ()
     \<and> fs (snd (create_readme self
            (w\<lparr>fs := (fs w)(data_dir self @ [''README.md''] \<mapsto> File old)\<rparr>)))
          = (fs w)(data_dir self @ [''README.md''] \<mapsto> File readme_content)"
proof -
  have p: "parent (data_dir self @ [''README.md'']) = data_dir self"
    by (simp add: parent_def)
  have a: "\<not> is_dir (fs w) (data_dir self @ [''README.md'']) \<longrightarrow>
            fst (create_readme self w) = Inr ()
            \<and> fs (snd (create_readme self w))
                = (fs w)(data_dir self @ [''README.md''] \<mapsto> File readme_content)"
    using assms by (simp add: create_readme_def write_file_ok p)
  let ?w = "w\<lparr>fs := (fs w)(data_dir self @ [''README.md''] \<mapsto> File old)\<rparr>"
  have d: "is_dir (fs ?w) (parent (data_dir self @ [''README.md'']))"
    using assms by (auto simp add: p is_dir_def)
  have n: "\<not> is_dir (fs ?w) (data_dir self @ [''README.md''])"
    by (simp add: is_dir_def)
  have "create_readme self ?w
      = (Inr (), ?w\<lparr>fs := (fs ?w)(data_dir self @ [''README.md''] \<mapsto> File readme_content),
                     events := events ?w @ [OpenWrite (data_dir self @ [''README.md''])]\<rparr>)"
    unfolding create_readme_def by (rule write_file_ok [OF _ n d]) simp
  then show ?thesis using a by simp
qed

theorem create_readme_overwrites_witness:
  "is_dir (fs demo_world) (data_dir demo_self)
   \<and> \<not> is_dir (fs demo_world) (data_dir demo_self @ [''README.md''])
   \<and> fs (snd (create_readme demo_self demo_world)) [''proj'', ''data'', ''raw'', ''README.md'']
       = Some (File readme_content)
   \<and> fs (snd (create_readme demo_self
        (demo_world\<lparr>fs := (fs demo_world)(data_dir demo_self @ [''README.md'']
                                               \<mapsto> File ''# my own notes'')\<rparr>)))
        [''proj'', ''data'', ''raw'', ''README.md'']
       = Some (File readme_content)"
proof -
  have d: "data_dir demo_self = [''proj'', ''data'', ''raw'']"
    by (simp add: demo_self_def)
  have a: "is_dir (fs demo_world) (data_dir demo_self)"
    by (simp add: d is_dir_def demo_world_def demo_fs_def)
  have n: "\<not> is_dir (fs demo_world) (data_dir demo_self @ [''README.md''])"
    by (simp add: d is_dir_def demo_world_def demo_fs_def)
  show ?thesis
    using a n create_readme_overwrites [OF a, of "''# my own notes''"]
    by (simp add: d)
qed

subsection \<open>Effects are appended\<close>

lemma performs_iff:
  "performs P w w' \<longleftrightarrow> (\<exists>es. events w' = events w @ es \<and> list_all P es)"
proof
  assume "performs P w w'"
  then have "events w' = events w @ performed w w' \<and> list_all P (performed w w')"
    unfolding performs_def performed_def
    by (metis append_take_drop_id)
  then show "\<exists>es. events w' = events w @ es \<and> list_all P es" by blast
next
  assume "\<exists>es. events w' = events w @ es \<and> list_all P es"
  then show "performs P w w'"
    by (auto simp add: performs_def performed_def)
qed

lemma performed_append: "events w' = events w @ es \<Longrightarrow> performed w w' = es"
  by (simp add: performed_def)

lemma performs_refl: "performs P w w"
  by (simp add: performs_iff)

lemma performs_trans: "performs P w w1 \<Longrightarrow> performs P w1 w2 \<Longrightarrow> performs P w w2"
  by (auto simp add: performs_iff)

lemma performs_mono: "performs P w w' \<Longrightarrow> (\<And>e. P e \<Longrightarrow> Q e) \<Longrightarrow> performs Q w w'"
  by (auto simp add: performs_iff list_all_iff)

lemma performs_fs: "performs P w (w'\<lparr>fs := f\<rparr>) = performs P w w'"
  by (simp add: performs_iff)

lemma performs_emit: "P e \<Longrightarrow> performs P w (emit e w)"
  by (simp add: performs_iff emit_def)

lemma performs_print: "P (Print s) \<Longrightarrow> performs P w (print s w)"
  by (simp add: print_def performs_emit)

lemma performs_prints: "(\<And>s. P (Print s)) \<Longrightarrow> performs P w (prints ss w)"
proof (induction ss arbitrary: w)
  case Nil
  show ?case by (simp add: prints_def performs_refl)
next
  case (Cons s ss)
  have "performs P w (print s w)" using Cons.prems by (rule performs_print)
  moreover have "performs P (print s w) (prints ss (print s w))"
    using Cons.prems by (rule Cons.IH)
  ultimately have "performs P w (prints ss (print s w))"
    by (rule performs_trans)
  then show ?case by (simp add: prints_def)
qed

lemma and_then_performs:
  assumes "performs P w (snd m)"
    and "\<And>v. fst m = Inr v \<Longrightarrow> performs P (snd m) (snd (k v (snd m)))"
  shows "performs P w (snd (and_then m k))"
proof (cases m)
  case (Pair r w1)
  show ?thesis
  proof (cases r)
    case (Inl e)
    with Pair assms(1) show ?thesis by (simp add: and_then_def)
  next
    case (Inr v)
    with Pair assms(2) [of v] have "performs P w1 (snd (k v w1))" by simp
    with Pair Inr assms(1) show ?thesis
      by (simp add: and_then_def) (rule performs_trans, assumption+)
  qed
qed

lemma try_except_performs:
  assumes "performs P w (snd body)"
    and "\<And>e. fst body = Inl e \<Longrightarrow> is_Exception e \<Longrightarrow>
           performs P (snd body) (snd (handler e (snd body)))"
  shows "performs P w (snd (try_except body handler))"
proof (cases body)
  case (Pair r w1)
  show ?thesis
  proof (cases r)
    case (Inr v)
    with Pair assms(1) show ?thesis by (simp add: try_except_def)
  next
    case (Inl e)
    show ?thesis
    proof (cases "is_Exception e")
      case False
      with Pair Inl assms(1) show ?thesis by (simp add: try_except_def)
    next
      case True
      with Pair Inl assms(2) [of e] have "performs P w1 (snd (handler e w1))" by simp
      with Pair Inl True assms(1) show ?thesis
        by (simp add: try_except_def) (rule performs_trans, assumption+)
    qed
  qed
qed

lemma mkdir_parents_performs: "P (Mkdir p) \<Longrightarrow> performs P w (snd (mkdir_parents p w))"
  by (simp add: mkdir_parents_def Let_def performs_fs performs_emit)

lemma write_file_performs: "P (OpenWrite p) \<Longrightarrow> performs P w (snd (write_file p c w))"
  by (simp add: write_file_def Let_def performs_fs performs_emit)

lemma unlink_performs: "P (Unlink p) \<Longrightarrow> performs P w (snd (unlink p w))"
  by (simp add: unlink_def Let_def performs_fs performs_emit)

lemma copytree_performs: "P (Copytree src dst) \<Longrightarrow> performs P w (snd (copytree src dst w))"
  by (simp add: copytree_def Let_def performs_fs performs_emit)

lemma extract_member_performs:
  assumes "\<And>q. P (Mkdir q)" and "\<And>q. P (OpenWrite q)"
  shows "performs P w (snd (extract_member dst m w))"
proof (cases m)
  case (Pair rel nd)
  show ?thesis
  proof (cases nd)
    case Dir
    with Pair show ?thesis
      by (simp add: extract_member_def mkdir_parents_performs assms)
  next
    case (File c)
    have "performs P w (snd (and_then (mkdir_parents (parent (dst @ rel)) w)
            (\<lambda>_ w1. write_file (dst @ rel) c w1)))"
      by (rule and_then_performs) (simp_all add: mkdir_parents_performs write_file_performs assms)
    with Pair File show ?thesis by (simp add: extract_member_def)
  qed
qed

lemma extract_members_performs:
  assumes "\<And>q. P (Mkdir q)" and "\<And>q. P (OpenWrite q)"
  shows "performs P w (snd (extract_members dst ms w))"
proof (induction ms arbitrary: w)
  case Nil
  show ?case by (simp add: performs_refl)
next
  case (Cons m ms)
  have "performs P w (snd (and_then (extract_member dst m w)
          (\<lambda>_ w1. extract_members dst ms w1)))"
    by (rule and_then_performs) (simp_all add: extract_member_performs assms Cons.IH)
  then show ?case by simp
qed

lemma zip_extractall_performs:
  assumes "\<And>q. P (Mkdir q)" and "\<And>q. P (OpenWrite q)"
    and "\<And>q. P (ZipOpen q)" and "\<And>q. P (ZipExtractall q)"
  shows "performs P w (snd (zip_extractall env p dst w))"
proof -
  have o: "performs P w (emit (ZipOpen p) w)"
    by (simp add: performs_emit assms)
  have x: "performs P (emit (ZipOpen p) w) (emit (ZipExtractall dst) (emit (ZipOpen p) w))"
    by (simp add: performs_emit assms)
  have m: "\<And>ms. performs P (emit (ZipExtractall dst) (emit (ZipOpen p) w))
            (snd (extract_members dst ms (emit (ZipExtractall dst) (emit (ZipOpen p) w))))"
    by (rule extract_members_performs) (rule assms)+
  have all: "\<And>ms. performs P w
            (snd (extract_members dst ms (emit (ZipExtractall dst) (emit (ZipOpen p) w))))"
    using o x m performs_trans by blast
  have f: "fs (emit (ZipOpen p) w) = fs w" by (simp add: emit_def)
  show ?thesis
    by (simp add: zip_extractall_def Let_def f o all
             split: option.splits node.splits sum.splits)
qed

lemma tar_extractall_performs:
  assumes "\<And>q. P (Mkdir q)" and "\<And>q. P (OpenWrite q)"
    and "\<And>q. P (TarOpen q)" and "\<And>q. P (TarExtractall q)"
  shows "performs P w (snd (tar_extractall env p dst w))"
proof -
  have o: "performs P w (emit (TarOpen p) w)"
    by (simp add: performs_emit assms)
  have x: "performs P (emit (TarOpen p) w) (emit (TarExtractall dst) (emit (TarOpen p) w))"
    by (simp add: performs_emit assms)
  have m: "\<And>ms. performs P (emit (TarExtractall dst) (emit (TarOpen p) w))
            (snd (extract_members dst ms (emit (TarExtractall dst) (emit (TarOpen p) w))))"
    by (rule extract_members_performs) (rule assms)+
  have all: "\<And>ms. performs P w
            (snd (extract_members dst ms (emit (TarExtractall dst) (emit (TarOpen p) w))))"
    using o x m performs_trans by blast
  have f: "fs (emit (TarOpen p) w) = fs w" by (simp add: emit_def)
  show ?thesis
    by (simp add: tar_extractall_def Let_def f o all
             split: option.splits node.splits sum.splits)
qed

subsection \<open>Dispatch on the archive's extension\<close>

lemma zip_extractall_opens:
  assumes "\<And>q. P (Mkdir q)" and "\<And>q. P (OpenWrite q)" and "\<And>q. P (ZipExtractall q)"
  shows "performs P (emit (ZipOpen p) w) (snd (zip_extractall env p dst w))"
proof -
  have x: "performs P (emit (ZipOpen p) w) (emit (ZipExtractall dst) (emit (ZipOpen p) w))"
    by (simp add: performs_emit assms)
  have m: "\<And>ms. performs P (emit (ZipExtractall dst) (emit (ZipOpen p) w))
            (snd (extract_members dst ms (emit (ZipExtractall dst) (emit (ZipOpen p) w))))"
    by (rule extract_members_performs) (rule assms)+
  have all: "\<And>ms. performs P (emit (ZipOpen p) w)
            (snd (extract_members dst ms (emit (ZipExtractall dst) (emit (ZipOpen p) w))))"
    using x m performs_trans by blast
  have f: "fs (emit (ZipOpen p) w) = fs w" by (simp add: emit_def)
  show ?thesis
    by (simp add: zip_extractall_def Let_def f all performs_refl
             split: option.splits node.splits sum.splits)
qed

lemma tar_extractall_opens:
  assumes "\<And>q. P (Mkdir q)" and "\<And>q. P (OpenWrite q)" and "\<And>q. P (TarExtractall q)"
  shows "performs P (emit (TarOpen p) w) (snd (tar_extractall env p dst w))"
proof -
  have x: "performs P (emit (TarOpen p) w) (emit (TarExtractall dst) (emit (TarOpen p) w))"
    by (simp add: performs_emit assms)
  have m: "\<And>ms. performs P (emit (TarExtractall dst) (emit (TarOpen p) w))
            (snd (extract_members dst ms (emit (TarExtractall dst) (emit (TarOpen p) w))))"
    by (rule extract_members_performs) (rule assms)+
  have all: "\<And>ms. performs P (emit (TarOpen p) w)
            (snd (extract_members dst ms (emit (TarExtractall dst) (emit (TarOpen p) w))))"
    using x m performs_trans by blast
  have f: "fs (emit (TarOpen p) w) = fs w" by (simp add: emit_def)
  show ?thesis
    by (simp add: tar_extractall_def Let_def f all performs_refl
             split: option.splits node.splits sum.splits)
qed

lemma then_print_first_two:
  assumes "performs P (emit e (print s w)) (snd m)"
  shows "take 2 (performed w (snd (and_then m (\<lambda>_ w2. (Inr (), print t w2))))) = [Print s, e]"
proof -
  from assms obtain es where es: "events (snd m) = events w @ [Print s, e] @ es"
    by (auto simp add: performs_iff emit_def print_def)
  show ?thesis
  proof (cases m)
    case (Pair r w1)
    with es show ?thesis
      by (cases r) (simp_all add: and_then_def performed_def print_def emit_def)
  qed
qed

lemma then_print_performs:
  assumes "performs P (print s w) (snd m)" and "\<And>x. P (Print x)"
  shows "performs P w (snd (and_then m (\<lambda>_ w2. (Inr (), print t w2))))"
proof -
  have "performs P w (print s w)" by (simp add: performs_print assms(2))
  then have "performs P w (snd m)" using assms(1) by (rule performs_trans)
  then show ?thesis
    by (rule and_then_performs) (simp add: performs_print assms(2))
qed

text \<open>
  C4. \<open>extract_archive\<close> dispatches on the path's extension, compared after
  \<open>lower()\<close>: \<open>.zip\<close> goes to \<open>zipfile\<close>, whose opening of the archive is the first effect
  after the line printed, and no effect of the call is tarfile's; \<open>.tar\<close>, \<open>.gz\<close> and
  \<open>.tgz\<close> go to \<open>tarfile\<close> in mode \<open>r:*\<close> likewise; any other extension raises the
  \<open>ValueError\<close> for an unsupported format, the filesystem is what it was, and the line
  printed is the only effect.
\<close>

theorem extract_archive_dispatch:
  "(lower (suffix p) = ''.zip'' \<longrightarrow>
      extract_archive env p dst w
        = and_then (zip_extractall env p dst (print (''Extracting '' @ str_path p @ ''...'') w))
            (\<lambda>_ w2. (Inr (), print (''Extracted to '' @ str_path dst) w2))
      \<and> take 2 (performed w (snd (extract_archive env p dst w)))
          = [Print (''Extracting '' @ str_path p @ ''...''), ZipOpen p]
      \<and> performs (\<lambda>e. zip_event e \<or> is_print e) w (snd (extract_archive env p dst w)))
   \<and> (lower (suffix p) \<in> {''.tar'', ''.gz'', ''.tgz''} \<longrightarrow>
      extract_archive env p dst w
        = and_then (tar_extractall env p dst (print (''Extracting '' @ str_path p @ ''...'') w))
            (\<lambda>_ w2. (Inr (), print (''Extracted to '' @ str_path dst) w2))
      \<and> take 2 (performed w (snd (extract_archive env p dst w)))
          = [Print (''Extracting '' @ str_path p @ ''...''), TarOpen p]
      \<and> performs (\<lambda>e. tar_event e \<or> is_print e) w (snd (extract_archive env p dst w)))
   \<and> (lower (suffix p) \<notin> {''.zip'', ''.tar'', ''.gz'', ''.tgz''} \<longrightarrow>
      fst (extract_archive env p dst w)
        = Inl (ValueError (''Unsupported archive format: '' @ suffix p))
      \<and> fs (snd (extract_archive env p dst w)) = fs w
      \<and> performed w (snd (extract_archive env p dst w))
          = [Print (''Extracting '' @ str_path p @ ''...'')])"
proof -
  let ?w1 = "print (''Extracting '' @ str_path p @ ''...'') w"
  let ?done = "\<lambda>(_::unit) w2. (Inr (), print (''Extracted to '' @ str_path dst) w2)"
  have zo: "performs (\<lambda>e. zip_event e \<or> is_print e) (emit (ZipOpen p) ?w1)
              (snd (zip_extractall env p dst ?w1))"
    by (rule zip_extractall_opens) simp_all
  have za: "performs (\<lambda>e. zip_event e \<or> is_print e) ?w1 (snd (zip_extractall env p dst ?w1))"
    by (rule zip_extractall_performs) simp_all
  have to: "performs (\<lambda>e. tar_event e \<or> is_print e) (emit (TarOpen p) ?w1)
              (snd (tar_extractall env p dst ?w1))"
    by (rule tar_extractall_opens) simp_all
  have ta: "performs (\<lambda>e. tar_event e \<or> is_print e) ?w1 (snd (tar_extractall env p dst ?w1))"
    by (rule tar_extractall_performs) simp_all
  have z: "lower (suffix p) = ''.zip'' \<longrightarrow>
      extract_archive env p dst w = and_then (zip_extractall env p dst ?w1) ?done
      \<and> take 2 (performed w (snd (extract_archive env p dst w)))
          = [Print (''Extracting '' @ str_path p @ ''...''), ZipOpen p]
      \<and> performs (\<lambda>e. zip_event e \<or> is_print e) w (snd (extract_archive env p dst w))"
    using then_print_first_two [OF zo] then_print_performs [OF za]
    by (simp add: extract_archive_def)
  have t: "lower (suffix p) \<in> {''.tar'', ''.gz'', ''.tgz''} \<longrightarrow>
      extract_archive env p dst w = and_then (tar_extractall env p dst ?w1) ?done
      \<and> take 2 (performed w (snd (extract_archive env p dst w)))
          = [Print (''Extracting '' @ str_path p @ ''...''), TarOpen p]
      \<and> performs (\<lambda>e. tar_event e \<or> is_print e) w (snd (extract_archive env p dst w))"
    using then_print_first_two [OF to] then_print_performs [OF ta]
    by (auto simp add: extract_archive_def)
  have u: "lower (suffix p) \<notin> {''.zip'', ''.tar'', ''.gz'', ''.tgz''} \<longrightarrow>
      fst (extract_archive env p dst w)
        = Inl (ValueError (''Unsupported archive format: '' @ suffix p))
      \<and> fs (snd (extract_archive env p dst w)) = fs w
      \<and> performed w (snd (extract_archive env p dst w))
          = [Print (''Extracting '' @ str_path p @ ''...'')]"
    by (simp add: extract_archive_def print_def emit_def performed_def)
  from z t u show ?thesis by blast
qed

lemma suffix_zip: "lower (suffix [''proj'', ''data'', ''raw'', ''FullIJCNN2013.zip'']) = ''.zip''"
  by code_simp

lemma suffix_targz: "lower (suffix [''cache'', ''lisa.TAR.GZ'']) = ''.gz''"
  by code_simp

lemma suffix_7z: "suffix [''cache'', ''lisa.7z''] = ''.7z''"
  by code_simp

lemma lower_7z: "lower ''.7z'' = ''.7z''"
  by code_simp

theorem extract_archive_dispatch_witness:
  "lower (suffix [''proj'', ''data'', ''raw'', ''FullIJCNN2013.zip'']) = ''.zip''
   \<and> take 2 (performed archive_world (snd (extract_archive demo_env
        [''proj'', ''data'', ''raw'', ''FullIJCNN2013.zip''] [''proj'', ''data'', ''raw'']
        archive_world)))
      = [Print ''Extracting /proj/data/raw/FullIJCNN2013.zip...'',
         ZipOpen [''proj'', ''data'', ''raw'', ''FullIJCNN2013.zip'']]
   \<and> lower (suffix [''cache'', ''lisa.TAR.GZ'']) \<in> {''.tar'', ''.gz'', ''.tgz''}
   \<and> take 2 (performed demo_world (snd (extract_archive demo_env
        [''cache'', ''lisa.TAR.GZ''] [''proj'', ''data'', ''raw'', ''LISA''] demo_world)))
      = [Print ''Extracting /cache/lisa.TAR.GZ...'', TarOpen [''cache'', ''lisa.TAR.GZ'']]
   \<and> lower (suffix [''cache'', ''lisa.7z'']) \<notin> {''.zip'', ''.tar'', ''.gz'', ''.tgz''}
   \<and> fst (extract_archive demo_env [''cache'', ''lisa.7z''] [''proj'', ''data'', ''raw'', ''LISA'']
        demo_world) = Inl (ValueError ''Unsupported archive format: .7z'')
   \<and> fs (snd (extract_archive demo_env [''cache'', ''lisa.7z'']
        [''proj'', ''data'', ''raw'', ''LISA''] demo_world)) = fs demo_world"
proof -
  have z: "take 2 (performed archive_world (snd (extract_archive demo_env
        [''proj'', ''data'', ''raw'', ''FullIJCNN2013.zip''] [''proj'', ''data'', ''raw'']
        archive_world)))
      = [Print (''Extracting '' @ str_path [''proj'', ''data'', ''raw'', ''FullIJCNN2013.zip'']
                 @ ''...''),
         ZipOpen [''proj'', ''data'', ''raw'', ''FullIJCNN2013.zip'']]"
    using suffix_zip
      extract_archive_dispatch [of "[''proj'', ''data'', ''raw'', ''FullIJCNN2013.zip'']"
          demo_env "[''proj'', ''data'', ''raw'']" archive_world]
    by blast
  have g: "lower (suffix [''cache'', ''lisa.TAR.GZ'']) \<in> {''.tar'', ''.gz'', ''.tgz''}"
    by (simp add: suffix_targz)
  have t: "take 2 (performed demo_world (snd (extract_archive demo_env
        [''cache'', ''lisa.TAR.GZ''] [''proj'', ''data'', ''raw'', ''LISA''] demo_world)))
      = [Print (''Extracting '' @ str_path [''cache'', ''lisa.TAR.GZ''] @ ''...''),
         TarOpen [''cache'', ''lisa.TAR.GZ'']]"
    using g
      extract_archive_dispatch [of "[''cache'', ''lisa.TAR.GZ'']"
          demo_env "[''proj'', ''data'', ''raw'', ''LISA'']" demo_world]
    by blast
  have n: "lower (suffix [''cache'', ''lisa.7z'']) \<notin> {''.zip'', ''.tar'', ''.gz'', ''.tgz''}"
    by (simp add: suffix_7z lower_7z)
  have u: "fst (extract_archive demo_env [''cache'', ''lisa.7z'']
                 [''proj'', ''data'', ''raw'', ''LISA''] demo_world)
             = Inl (ValueError (''Unsupported archive format: '' @ suffix [''cache'', ''lisa.7z'']))
           \<and> fs (snd (extract_archive demo_env [''cache'', ''lisa.7z'']
                 [''proj'', ''data'', ''raw'', ''LISA''] demo_world)) = fs demo_world"
    using n
      extract_archive_dispatch [of "[''cache'', ''lisa.7z'']"
          demo_env "[''proj'', ''data'', ''raw'', ''LISA'']" demo_world]
    by blast
  show ?thesis
    using z g t n u by (simp add: suffix_zip suffix_7z str_path_def)
qed

subsection \<open>Downloading with and without an expected hash\<close>

lemma fs_emit [simp]: "fs (emit e w) = fs w"
  by (simp add: emit_def)

lemma events_emit [simp]: "events (emit e w) = events w @ [e]"
  by (simp add: emit_def)

lemma fs_print [simp]: "fs (print s w) = fs w"
  by (simp add: print_def)

lemma events_print [simp]: "events (print s w) = events w @ [Print s]"
  by (simp add: print_def)

lemma urlretrieve_ok:
  assumes "http_get env url = Inr body"
    and "destination \<noteq> []" and "\<not> is_dir (fs w) destination"
    and "is_dir (fs w) (parent destination)"
  shows "urlretrieve env url destination w
     = (Inr (), w\<lparr>fs := (fs w)(destination \<mapsto> File body),
                   events := events w @ [Urlretrieve url destination, OpenWrite destination]\<rparr>)"
proof -
  let ?w1 = "emit (Urlretrieve url destination) w"
  have "write_file destination body ?w1
      = (Inr (), ?w1\<lparr>fs := (fs ?w1)(destination \<mapsto> File body),
                       events := events ?w1 @ [OpenWrite destination]\<rparr>)"
    using assms(2-4) by (intro write_file_ok) simp_all
  then show ?thesis
    using assms(1) by (simp add: urlretrieve_def emit_def)
qed

lemma download_file_falsy:
  "\<not> truthy expected_hash \<Longrightarrow>
   download_file env url destination expected_hash w
     = try_except
         (and_then (urlretrieve env url destination (print (''Downloading '' @ url @ ''...'') w))
            (\<lambda>_ w1. (Inr (), print (''Downloaded to '' @ str_path destination) w1)))
         (\<lambda>e w1. (Inl e, print (''Download failed: '' @ str_exn e) w1))"
  by (cases expected_hash) (simp_all add: download_file_def)

lemma download_file_truthy:
  "h \<noteq> [] \<Longrightarrow>
   download_file env url destination (Some h) w
     = try_except
         (and_then (urlretrieve env url destination (print (''Downloading '' @ url @ ''...'') w))
            (\<lambda>_ w1. and_then
               (verify_hash env destination h
                  (print (''Downloaded to '' @ str_path destination) w1))
               (\<lambda>ok w3.
                  if \<not> ok
                  then (Inl (ValueError (''Hash verification failed for ''
                                          @ str_path destination)), w3)
                  else (Inr (), w3))))
         (\<lambda>e w1. (Inl e, print (''Download failed: '' @ str_exn e) w1))"
  by (simp add: download_file_def Let_def)

text \<open>
  An empty string as \<open>expected_hash\<close> is false in \<open>if expected_hash:\<close>, as \<open>None\<close> is: the
  call is the call without a hash, and it returns when the download does.
\<close>

lemma download_file_empty_hash:
  "download_file env url destination (Some []) w = download_file env url destination None w"
  by (simp add: download_file_falsy)

lemma download_file_falsy_returns:
  assumes "http_get env url = Inr body"
    and "destination \<noteq> []" and "\<not> is_dir (fs w) destination"
    and "is_dir (fs w) (parent destination)"
    and "\<not> truthy expected_hash"
  shows "fst (download_file env url destination expected_hash w) = Inr ()"
proof -
  define w0 where "w0 = print (''Downloading '' @ url @ ''...'') w"
  have "urlretrieve env url destination w0
      = (Inr (), w0\<lparr>fs := (fs w0)(destination \<mapsto> File body),
                     events := events w0 @ [Urlretrieve url destination, OpenWrite destination]\<rparr>)"
    using assms(1-4) by (intro urlretrieve_ok) (simp_all add: w0_def)
  note download_file_falsy [OF assms(5), of env url destination w, folded w0_def, unfolded this]
  then show ?thesis by (simp add: and_then_def try_except_def)
qed

text \<open>
  C2. A call of \<open>download_file\<close> with an expected hash supplied (one the guard
  \<open>if expected_hash:\<close> takes as supplied), whose download the server answers and whose
  destination can be written: if the digest of the downloaded bytes is the expected
  hash the call returns; if it is not, the call raises the \<open>ValueError\<close> of a failed
  verification. Either way the destination then holds the downloaded bytes, and
  nothing else in the filesystem has changed.
\<close>

theorem download_file_verifies_supplied_hash:
  assumes "http_get env url = Inr body"
    and "destination \<noteq> []" and "\<not> is_dir (fs w) destination"
    and "is_dir (fs w) (parent destination)"
    and "truthy (Some h)"
  shows "(sha256_hexdigest env (read_chunks 4096 body) = h \<longrightarrow>
            fst (download_file env url destination (Some h) w) = Inr ())
     \<and> (sha256_hexdigest env (read_chunks 4096 body) \<noteq> h \<longrightarrow>
            fst (download_file env url destination (Some h) w)
              = Inl (ValueError (''Hash verification failed for '' @ str_path destination)))
     \<and> fs (snd (download_file env url destination (Some h) w))
          = (fs w)(destination \<mapsto> File body)"
proof -
  from assms(5) have hne: "h \<noteq> []" by simp
  define w0 where "w0 = print (''Downloading '' @ url @ ''...'') w"
  have f0: "fs w0 = fs w" by (simp add: w0_def)
  define w1 where "w1 = w0\<lparr>fs := (fs w0)(destination \<mapsto> File body),
                    events := events w0 @ [Urlretrieve url destination, OpenWrite destination]\<rparr>"
  have u: "urlretrieve env url destination w0 = (Inr (), w1)"
    unfolding w1_def using assms(1-4) by (intro urlretrieve_ok) (simp_all add: f0)
  define w2 where "w2 = print (''Downloaded to '' @ str_path destination) w1"
  have f2: "fs w2 = (fs w)(destination \<mapsto> File body)"
    by (simp add: w2_def w1_def f0)
  then have "fs w2 destination = Some (File body)" by simp
  note v = verify_hash_file [OF this assms(2), of env h]
  have "download_file env url destination (Some h) w
      = try_except
          (and_then (urlretrieve env url destination w0)
            (\<lambda>_ w1. and_then
               (verify_hash env destination h
                  (print (''Downloaded to '' @ str_path destination) w1))
               (\<lambda>ok w3.
                  if \<not> ok
                  then (Inl (ValueError (''Hash verification failed for ''
                                          @ str_path destination)), w3)
                  else (Inr (), w3))))
          (\<lambda>e w1. (Inl e, print (''Download failed: '' @ str_exn e) w1))"
    unfolding w0_def using hne by (rule download_file_truthy)
  also have "\<dots> = try_except
          (and_then (verify_hash env destination h w2)
               (\<lambda>ok w3.
                  if \<not> ok
                  then (Inl (ValueError (''Hash verification failed for ''
                                          @ str_path destination)), w3)
                  else (Inr (), w3)))
          (\<lambda>e w1. (Inl e, print (''Download failed: '' @ str_exn e) w1))"
    unfolding u w2_def by (simp add: and_then_def)
  finally have r: "download_file env url destination (Some h) w
      = try_except
          (if sha256_hexdigest env (read_chunks 4096 body) = h
           then (Inr (), emit (OpenRead destination) w2)
           else (Inl (ValueError (''Hash verification failed for '' @ str_path destination)),
                 emit (OpenRead destination) w2))
          (\<lambda>e w1. (Inl e, print (''Download failed: '' @ str_exn e) w1))"
    by (simp add: v and_then_def)
  show ?thesis
    using f2 by (simp add: r try_except_def)
qed

theorem download_file_verifies_supplied_hash_witness:
  "http_get demo_env gtsdb_url = Inr demo_body
   \<and> truthy (Some demo_digest) \<and> truthy (Some ''0000'')
   \<and> sha256_hexdigest demo_env (read_chunks 4096 demo_body) = demo_digest
   \<and> fst (download_file demo_env gtsdb_url [''proj'', ''data'', ''raw'', ''FullIJCNN2013.zip'']
            (Some demo_digest) demo_world) = Inr ()
   \<and> sha256_hexdigest demo_env (read_chunks 4096 demo_body) \<noteq> ''0000''
   \<and> fst (download_file demo_env gtsdb_url [''proj'', ''data'', ''raw'', ''FullIJCNN2013.zip'']
            (Some ''0000'') demo_world)
       = Inl (ValueError ''Hash verification failed for /proj/data/raw/FullIJCNN2013.zip'')
   \<and> fs (snd (download_file demo_env gtsdb_url [''proj'', ''data'', ''raw'', ''FullIJCNN2013.zip'']
            (Some ''0000'') demo_world)) [''proj'', ''data'', ''raw'', ''FullIJCNN2013.zip'']
       = Some (File demo_body)"
proof -
  have g: "http_get demo_env gtsdb_url = Inr demo_body"
    by (simp add: demo_env_def)
  have ne: "[''proj'', ''data'', ''raw'', ''FullIJCNN2013.zip''] \<noteq> []" by simp
  have nd: "\<not> is_dir (fs demo_world) [''proj'', ''data'', ''raw'', ''FullIJCNN2013.zip'']"
    by (simp add: is_dir_def demo_world_def demo_fs_def)
  have pd: "is_dir (fs demo_world) (parent [''proj'', ''data'', ''raw'', ''FullIJCNN2013.zip''])"
    by (simp add: is_dir_def parent_def demo_world_def demo_fs_def)
  have d: "sha256_hexdigest demo_env (read_chunks 4096 demo_body) = demo_digest"
    by (simp add: demo_chunks demo_env_def)
  have x: "demo_digest \<noteq> ''0000''"
    by (simp add: demo_digest_def)
  have t: "truthy (Some demo_digest)"
    by (simp add: demo_digest_def)
  have z: "truthy (Some ''0000'')" by simp
  have s: "''Hash verification failed for ''
             @ str_path [''proj'', ''data'', ''raw'', ''FullIJCNN2013.zip'']
           = ''Hash verification failed for /proj/data/raw/FullIJCNN2013.zip''"
    by (simp add: str_path_def)
  show ?thesis
    using g d x t
      download_file_verifies_supplied_hash [OF g ne nd pd t, unfolded s]
      download_file_verifies_supplied_hash [OF g ne nd pd z, unfolded s]
    by simp
qed

subsection \<open>What the two syncs perform\<close>

lemma urlretrieve_performs:
  assumes "P (Urlretrieve url dst)" and "P (OpenWrite dst)"
  shows "performs P w (snd (urlretrieve env url dst w))"
proof (cases "http_get env url")
  case (Inl e)
  then show ?thesis by (simp add: urlretrieve_def performs_emit assms)
next
  case (Inr body)
  have "performs P w (emit (Urlretrieve url dst) w)"
    by (simp add: performs_emit assms)
  moreover have "performs P (emit (Urlretrieve url dst) w)
                   (snd (write_file dst body (emit (Urlretrieve url dst) w)))"
    by (simp add: write_file_performs assms)
  ultimately show ?thesis
    using Inr by (simp add: urlretrieve_def) (rule performs_trans)
qed

lemma download_file_None_performs:
  assumes "\<And>s. P (Print s)" and "\<And>u q. P (Urlretrieve u q)" and "\<And>q. P (OpenWrite q)"
  shows "performs P w (snd (download_file env url dst None w))"
proof -
  have "performs P w (snd (try_except
         (and_then (urlretrieve env url dst (print (''Downloading '' @ url @ ''...'') w))
            (\<lambda>_ w1. (Inr (), print (''Downloaded to '' @ str_path dst) w1)))
         (\<lambda>e w1. (Inl e, print (''Download failed: '' @ str_exn e) w1))))"
  proof (rule try_except_performs)
    show "performs P w (snd (and_then
            (urlretrieve env url dst (print (''Downloading '' @ url @ ''...'') w))
            (\<lambda>_ w1. (Inr (), print (''Downloaded to '' @ str_path dst) w1))))"
    proof (rule then_print_performs)
      show "performs P (print (''Downloading '' @ url @ ''...'') w)
              (snd (urlretrieve env url dst (print (''Downloading '' @ url @ ''...'') w)))"
        by (rule urlretrieve_performs) (rule assms)+
    qed (rule assms)
  qed (simp add: performs_print assms)
  then show ?thesis by (simp add: download_file_falsy)
qed

lemma extract_archive_performs:
  assumes "\<And>s. P (Print s)" and "\<And>q. P (Mkdir q)" and "\<And>q. P (OpenWrite q)"
    and "\<And>q. P (ZipOpen q)" and "\<And>q. P (ZipExtractall q)"
    and "\<And>q. P (TarOpen q)" and "\<And>q. P (TarExtractall q)"
  shows "performs P w (snd (extract_archive env p dst w))"
proof -
  let ?w1 = "print (''Extracting '' @ str_path p @ ''...'') w"
  have z: "performs P ?w1 (snd (zip_extractall env p dst ?w1))"
    by (rule zip_extractall_performs) (rule assms)+
  have t: "performs P ?w1 (snd (tar_extractall env p dst ?w1))"
    by (rule tar_extractall_performs) (rule assms)+
  have u: "performs P w ?w1" by (simp add: performs_print assms)
  show ?thesis
    unfolding extract_archive_def Let_def
    using then_print_performs [OF z assms(1)] then_print_performs [OF t assms(1)] u
    by (simp del: set_simps)
qed

lemma gtsdb_try_performs: "performs gtsdb_event w (snd (gtsdb_try env self w))"
  unfolding gtsdb_try_def Let_def
proof (rule and_then_performs)
  let ?w1 = "prints [''Downloading GTSDB Full IJCNN 2013 dataset (~2.7GB)...'',
                     ''This may take several minutes depending on your connection.''] w"
  have "performs gtsdb_event w ?w1" by (rule performs_prints) simp
  moreover have "performs gtsdb_event ?w1
      (snd (download_file env gtsdb_url (data_dir self @ [''FullIJCNN2013.zip'']) None ?w1))"
    by (rule download_file_None_performs) simp_all
  ultimately show "performs gtsdb_event w
      (snd (download_file env gtsdb_url (data_dir self @ [''FullIJCNN2013.zip'']) None ?w1))"
    by (rule performs_trans)
next
  fix v
  define w2 where "w2 = snd (download_file env gtsdb_url (data_dir self @ [''FullIJCNN2013.zip''])
           None (prints [''Downloading GTSDB Full IJCNN 2013 dataset (~2.7GB)...'',
                     ''This may take several minutes depending on your connection.''] w))"
  have "performs gtsdb_event w2
     (snd (and_then (extract_archive env (data_dir self @ [''FullIJCNN2013.zip'']) (data_dir self) w2)
        (\<lambda>_ w3. and_then (unlink (data_dir self @ [''FullIJCNN2013.zip'']) w3)
           (\<lambda>_ w4. (Inr (), print ''GTSDB download and extraction completed!'' w4)))))"
  proof (rule and_then_performs)
    show "performs gtsdb_event w2
       (snd (extract_archive env (data_dir self @ [''FullIJCNN2013.zip'']) (data_dir self) w2))"
      by (rule extract_archive_performs) simp_all
  next
    fix u
    show "performs gtsdb_event
        (snd (extract_archive env (data_dir self @ [''FullIJCNN2013.zip'']) (data_dir self) w2))
        (snd (and_then (unlink (data_dir self @ [''FullIJCNN2013.zip''])
               (snd (extract_archive env (data_dir self @ [''FullIJCNN2013.zip''])
                      (data_dir self) w2)))
           (\<lambda>_ w4. (Inr (), print ''GTSDB download and extraction completed!'' w4))))"
      by (rule and_then_performs) (simp_all add: unlink_performs performs_print)
  qed
  then show "performs gtsdb_event
     (snd (download_file env gtsdb_url (data_dir self @ [''FullIJCNN2013.zip'']) None
         (prints [''Downloading GTSDB Full IJCNN 2013 dataset (~2.7GB)...'',
                     ''This may take several minutes depending on your connection.''] w)))
     (snd (and_then (extract_archive env (data_dir self @ [''FullIJCNN2013.zip'']) (data_dir self)
         (snd (download_file env gtsdb_url (data_dir self @ [''FullIJCNN2013.zip'']) None
         (prints [''Downloading GTSDB Full IJCNN 2013 dataset (~2.7GB)...'',
                     ''This may take several minutes depending on your connection.''] w))))
        (\<lambda>_ w3. and_then (unlink (data_dir self @ [''FullIJCNN2013.zip'']) w3)
           (\<lambda>_ w4. (Inr (), print ''GTSDB download and extraction completed!'' w4)))))"
    unfolding w2_def .
qed

lemma download_gtsdb_performs: "performs gtsdb_event w (snd (download_gtsdb env self w))"
proof (cases "exists_path (fs w) (data_dir self @ [''GTSDB''])")
  case True
  then show ?thesis by (simp add: gtsdb_skip performs_iff)
next
  case False
  let ?w1 = "print ''=== Downloading GTSDB Dataset ==='' w"
  have "performs gtsdb_event w (snd (try_except (gtsdb_try env self ?w1)
          (\<lambda>e w2. (Inr (), prints (gtsdb_fallback e) w2))))"
  proof (rule try_except_performs)
    have "performs gtsdb_event w ?w1" by (simp add: performs_print)
    then show "performs gtsdb_event w (snd (gtsdb_try env self ?w1))"
      using gtsdb_try_performs by (rule performs_trans)
  next
    fix e
    show "performs gtsdb_event (snd (gtsdb_try env self ?w1))
            (snd (Inr (), prints (gtsdb_fallback e) (snd (gtsdb_try env self ?w1))))"
      by (simp add: performs_prints)
  qed
  with False show ?thesis by (simp add: download_gtsdb_def)
qed

text \<open>
  C9. \<open>download_gtsdb\<close> calls \<open>download_file\<close> with two arguments, so \<open>expected_hash\<close> is
  \<open>None\<close>: whatever the hash library would answer, the sync does the same, and it never
  opens a file to hash it.
\<close>

theorem download_gtsdb_never_verifies:
  "download_gtsdb (env\<lparr>sha256_hexdigest := d\<rparr>) self w = download_gtsdb env self w
   \<and> performs (\<lambda>e. \<not> hash_event e) w (snd (download_gtsdb env self w))
   \<and> download_file (env\<lparr>sha256_hexdigest := d\<rparr>) url destination None w
       = download_file env url destination None w"
proof -
  have c: "\<And>url destination w. download_file (env\<lparr>sha256_hexdigest := d\<rparr>) url destination None w
       = download_file env url destination None w"
    by (simp add: download_file_falsy urlretrieve_def)
  have z: "\<And>p dst w. zip_extractall (env\<lparr>sha256_hexdigest := d\<rparr>) p dst w
       = zip_extractall env p dst w"
    by (simp add: zip_extractall_def Let_def split: option.splits node.splits)
  have t: "\<And>p dst w. tar_extractall (env\<lparr>sha256_hexdigest := d\<rparr>) p dst w
       = tar_extractall env p dst w"
    by (simp add: tar_extractall_def Let_def split: option.splits node.splits)
  have x: "\<And>p dst w. extract_archive (env\<lparr>sha256_hexdigest := d\<rparr>) p dst w
       = extract_archive env p dst w"
    by (simp only: extract_archive_def z t)
  have g: "\<And>w. gtsdb_try (env\<lparr>sha256_hexdigest := d\<rparr>) self w = gtsdb_try env self w"
    by (simp only: gtsdb_try_def c x)
  have a: "download_gtsdb (env\<lparr>sha256_hexdigest := d\<rparr>) self w = download_gtsdb env self w"
    by (simp only: download_gtsdb_def g)
  have b: "performs (\<lambda>e. \<not> hash_event e) w (snd (download_gtsdb env self w))"
  proof (rule performs_mono [OF download_gtsdb_performs])
    fix e
    assume "gtsdb_event e"
    then show "\<not> hash_event e" by (cases e) simp_all
  qed
  from a b c show ?thesis by blast
qed

theorem download_gtsdb_never_verifies_witness:
  "download_gtsdb (demo_env\<lparr>sha256_hexdigest := (\<lambda>cs. ''00'')\<rparr>) demo_self demo_world
     = download_gtsdb demo_env demo_self demo_world
   \<and> list_all (\<lambda>e. \<not> hash_event e)
         (performed demo_world (snd (download_gtsdb demo_env demo_self demo_world)))"
  using download_gtsdb_never_verifies [where env = demo_env
      and d = "\<lambda>cs. ''00''" and self = demo_self and w = demo_world]
  by (simp add: performs_def)

lemma events_prints [simp]: "events (prints ss w) = events w @ map Print ss"
  by (induction ss arbitrary: w) (simp_all add: prints_def)

lemma fs_prints [simp]: "fs (prints ss w) = fs w"
  by (induction ss arbitrary: w) (simp_all add: prints_def)

lemma performs_append:
  "events w' = events w @ es \<Longrightarrow> list_all P es \<Longrightarrow> performs P w w'"
  by (auto simp add: performs_iff)

lemma performs_if:
  "performs P w (snd a) \<Longrightarrow> performs P w (snd b) \<Longrightarrow> performs P w (snd (if c then a else b))"
  by simp

lemma install_kagglehub_performs: "performs lisa_event w (snd (install_kagglehub env w))"
proof -
  have "\<exists>es. events (snd (install_kagglehub env w)) = events w @ es \<and> list_all lisa_event es"
    by (simp add: install_kagglehub_def do_import_def do_check_call_def try_except_def
          and_then_def split: sum.splits)
  then show ?thesis by (simp add: performs_iff)
qed

lemma do_dataset_download_performs:
  "P (DatasetDownload i) \<Longrightarrow> performs P w (snd (do_dataset_download env i w))"
  by (simp add: do_dataset_download_def Let_def performs_fs performs_emit
           split: sum.splits prod.splits)

lemma lisa_try_performs: "performs lisa_event w (snd (lisa_try env self w))"
  unfolding lisa_try_def Let_def
proof (rule and_then_performs)
  show "performs lisa_event w (snd (do_import env InSync w))"
    by (simp add: do_import_def performs_emit)
next
  fix v
  define w2 where "w2 = snd (do_import env InSync w)"
  define w2' where "w2' = prints [''Downloading LISA traffic light dataset from Kaggle...'',
                       ''This may take several minutes depending on your connection.''] w2"
  have p2: "performs lisa_event w2 w2'"
    unfolding w2'_def by (rule performs_prints) simp
  have "performs lisa_event w2
     (snd (and_then (do_dataset_download env lisa_id w2')
           (\<lambda>downloaded_path w3.
              if exists_path (fs (print (''Dataset downloaded to: '' @ str_path downloaded_path) w3))
                   downloaded_path then
                and_then
                  (if is_dir (fs (print (''Dataset downloaded to: '' @ str_path downloaded_path) w3))
                        downloaded_path
                   then copytree downloaded_path (data_dir self @ [''LISA''])
                          (print (''Dataset downloaded to: '' @ str_path downloaded_path) w3)
                   else extract_archive env downloaded_path (data_dir self @ [''LISA''])
                          (print (''Dataset downloaded to: '' @ str_path downloaded_path) w3))
                  (\<lambda>_ w5. (Inr (), print ''LISA dataset setup completed!'' w5))
              else
                (Inr (), print (''Downloaded path '' @ str_path downloaded_path
                                  @ '' not found.'')
                           (print (''Dataset downloaded to: '' @ str_path downloaded_path) w3)))))"
  proof (rule and_then_performs)
    have "performs lisa_event w2' (snd (do_dataset_download env lisa_id w2'))"
      by (rule do_dataset_download_performs) simp
    with p2 show "performs lisa_event w2 (snd (do_dataset_download env lisa_id w2'))"
      by (rule performs_trans)
  next
    fix p
    define w3 where "w3 = snd (do_dataset_download env lisa_id w2')"
    define w4 where "w4 = print (''Dataset downloaded to: '' @ str_path p) w3"
    have p4: "performs lisa_event w3 w4"
      unfolding w4_def by (simp add: performs_print)
    have c: "performs lisa_event w4 (snd (copytree p (data_dir self @ [''LISA'']) w4))"
      by (rule copytree_performs) simp
    have x: "performs lisa_event w4 (snd (extract_archive env p (data_dir self @ [''LISA'']) w4))"
      by (rule extract_archive_performs) simp_all
    have "performs lisa_event w4
        (snd (and_then
           (if is_dir (fs w4) p then copytree p (data_dir self @ [''LISA'']) w4
            else extract_archive env p (data_dir self @ [''LISA'']) w4)
           (\<lambda>_ w5. (Inr (), print ''LISA dataset setup completed!'' w5))))"
      by (rule and_then_performs) (simp_all add: c x performs_print)
    with p4 have a: "performs lisa_event w3
        (snd (and_then
           (if is_dir (fs w4) p then copytree p (data_dir self @ [''LISA'']) w4
            else extract_archive env p (data_dir self @ [''LISA'']) w4)
           (\<lambda>_ w5. (Inr (), print ''LISA dataset setup completed!'' w5))))"
      by (rule performs_trans)
    have "performs lisa_event w4
            (print (''Downloaded path '' @ str_path p @ '' not found.'') w4)"
      by (simp add: performs_print)
    with p4 have "performs lisa_event w3
            (print (''Downloaded path '' @ str_path p @ '' not found.'') w4)"
      by (rule performs_trans)
    then have b: "performs lisa_event w3
            (snd (Inr () :: exn + unit,
                  print (''Downloaded path '' @ str_path p @ '' not found.'') w4))"
      by simp
    show "performs lisa_event (snd (do_dataset_download env lisa_id w2'))
        (snd (if exists_path (fs (print (''Dataset downloaded to: '' @ str_path p)
                    (snd (do_dataset_download env lisa_id w2')))) p
              then and_then
                  (if is_dir (fs (print (''Dataset downloaded to: '' @ str_path p)
                        (snd (do_dataset_download env lisa_id w2')))) p
                   then copytree p (data_dir self @ [''LISA''])
                          (print (''Dataset downloaded to: '' @ str_path p)
                             (snd (do_dataset_download env lisa_id w2')))
                   else extract_archive env p (data_dir self @ [''LISA''])
                          (print (''Dataset downloaded to: '' @ str_path p)
                             (snd (do_dataset_download env lisa_id w2'))))
                  (\<lambda>_ w5. (Inr (), print ''LISA dataset setup completed!'' w5))
              else (Inr (), print (''Downloaded path '' @ str_path p @ '' not found.'')
                           (print (''Dataset downloaded to: '' @ str_path p)
                              (snd (do_dataset_download env lisa_id w2'))))))"
      using a b unfolding w4_def w3_def by (rule performs_if)
  qed
  then show "performs lisa_event (snd (do_import env InSync w))
     (snd (and_then
           (do_dataset_download env lisa_id
              (prints [''Downloading LISA traffic light dataset from Kaggle...'',
                       ''This may take several minutes depending on your connection.'']
                 (snd (do_import env InSync w))))
           (\<lambda>downloaded_path w3.
              if exists_path (fs (print (''Dataset downloaded to: '' @ str_path downloaded_path) w3))
                   downloaded_path then
                and_then
                  (if is_dir (fs (print (''Dataset downloaded to: '' @ str_path downloaded_path) w3))
                        downloaded_path
                   then copytree downloaded_path (data_dir self @ [''LISA''])
                          (print (''Dataset downloaded to: '' @ str_path downloaded_path) w3)
                   else extract_archive env downloaded_path (data_dir self @ [''LISA''])
                          (print (''Dataset downloaded to: '' @ str_path downloaded_path) w3))
                  (\<lambda>_ w5. (Inr (), print ''LISA dataset setup completed!'' w5))
              else
                (Inr (), print (''Downloaded path '' @ str_path downloaded_path
                                  @ '' not found.'')
                           (print (''Dataset downloaded to: '' @ str_path downloaded_path) w3)))))"
    unfolding w2'_def w2_def .
qed

lemma download_lisa_performs: "performs lisa_event w (snd (download_lisa env self w))"
proof (cases "exists_path (fs w) (data_dir self @ [''LISA''])")
  case True
  then show ?thesis by (simp add: lisa_skip performs_iff)
next
  case False
  define w0 where "w0 = print ''=== Downloading LISA Dataset from Kaggle ==='' w"
  have p0: "performs lisa_event w w0"
    unfolding w0_def by (simp add: performs_print)
  have "performs lisa_event w
     (snd (and_then (install_kagglehub env w0)
          (\<lambda>installed w1.
             if \<not> installed
             then (Inr (), prints [''Error: Could not install kagglehub.'',
                                   ''Please install manually: pip install kagglehub''] w1)
             else
               try_except (lisa_try env self w1)
                 (\<lambda>e w2. (Inr (), prints (lisa_fallback e) w2)))))"
  proof (rule and_then_performs)
    show "performs lisa_event w (snd (install_kagglehub env w0))"
      using p0 install_kagglehub_performs by (rule performs_trans)
  next
    fix installed
    define w1 where "w1 = snd (install_kagglehub env w0)"
    have a: "performs lisa_event w1
        (snd (Inr () :: exn + unit, prints [''Error: Could not install kagglehub.'',
                                   ''Please install manually: pip install kagglehub''] w1))"
      by (simp add: performs_prints)
    have b: "performs lisa_event w1
        (snd (try_except (lisa_try env self w1)
                 (\<lambda>e w2. (Inr (), prints (lisa_fallback e) w2))))"
      by (rule try_except_performs) (simp_all add: lisa_try_performs performs_prints)
    show "performs lisa_event (snd (install_kagglehub env w0))
        (snd (if \<not> installed
              then (Inr (), prints [''Error: Could not install kagglehub.'',
                                   ''Please install manually: pip install kagglehub'']
                              (snd (install_kagglehub env w0)))
              else try_except (lisa_try env self (snd (install_kagglehub env w0)))
                 (\<lambda>e w2. (Inr (), prints (lisa_fallback e) w2))))"
      using a b unfolding w1_def by (rule performs_if)
  qed
  with False show ?thesis
    unfolding w0_def by (simp only: download_lisa_def Let_def if_False)
qed

subsection \<open>The order of a run\<close>

lemma and_then_Inr:
  "and_then m k = (Inr v, w') \<Longrightarrow> \<exists>u w1. m = (Inr u, w1) \<and> k u w1 = (Inr v, w')"
  by (auto simp add: and_then_def split: prod.splits sum.splits)

lemma main_zero:
  "fst (main env w) = 0 \<Longrightarrow> script_body env w = (Inr (), snd (main env w))"
  by (auto simp add: main_def split: prod.splits sum.splits exn.splits)

lemma make_dirs_apply: "make_dirs f ps q = (if q \<in> set ps then Some Dir else f q)"
  unfolding make_dirs_def by (induction ps arbitrary: f) auto

lemma self_in_ancestors: "p \<noteq> [] \<Longrightarrow> p \<in> set (ancestors_or_self p)"
proof -
  assume "p \<noteq> []"
  then have "length p \<in> set [1 ..< Suc (length p)]" by (cases p) simp_all
  then have "take (length p) p \<in> set (ancestors_or_self p)"
    unfolding ancestors_or_self_def set_map by (rule imageI)
  then show ?thesis by simp
qed

lemma init_Inr:
  assumes "init env w = (Inr self, w1)"
  shows "performed w w1 = [Mkdir (data_dir self)] \<and> is_dir (fs w1) (data_dir self)"
proof -
  define d where "d = parent (parent (script_file env)) @ [''data'', ''raw'']"
  have dne: "d \<noteq> []" by (simp add: d_def)
  from assms have m: "mkdir_parents d w = (Inr (), w1)" and s: "self = \<lparr>data_dir = d\<rparr>"
    by (auto simp add: init_def d_def [symmetric] and_then_def Let_def
          split: prod.splits sum.splits)
  from m have w1: "w1 = (emit (Mkdir d) w)\<lparr>fs := make_dirs (fs w) (ancestors_or_self d)\<rparr>"
    by (auto simp add: mkdir_parents_def Let_def split: if_splits)
  have "fs w1 d = Some Dir"
    using self_in_ancestors [OF dne] by (simp add: w1 make_dirs_apply)
  then show ?thesis
    by (simp add: s w1 performed_def is_dir_def)
qed

lemma create_readme_Inr:
  assumes "create_readme self w = (Inr (), w')"
  shows "performed w w' = [OpenWrite (data_dir self @ [''README.md''])]
     \<and> fs w' (data_dir self @ [''README.md'']) = Some (File readme_content)"
  using assms
  by (auto simp add: create_readme_def write_file_def Let_def performed_def split: if_splits)

text \<open>
  C7. A run that completes (exit code 0) has performed, in this order and each from the
  world the one before left: the creation of the raw-data root (which then is a
  directory); the two opening lines and the writing of \<open>README.md\<close> (which then holds the
  fixed text); \<open>download_gtsdb\<close>, all of whose effects are of the direct sync's kinds;
  \<open>download_lisa\<close>, all of whose effects are of the hub sync's kinds; and the three lines
  of the final status. The effects of the run are exactly these, concatenated.
\<close>

theorem run_steps_in_order:
  assumes "fst (main env w) = 0"
  shows "\<exists>self w1 w2 w3 w4.
      init env w = (Inr self, w1)
    \<and> performed w w1 = [Mkdir (data_dir self)] \<and> is_dir (fs w1) (data_dir self)
    \<and> create_readme self
          (prints [''Starting dataset download process...'',
                   ''Data directory: '' @ str_path (data_dir self)] w1) = (Inr (), w2)
    \<and> performed w1 w2
        = [Print ''Starting dataset download process...'',
           Print (''Data directory: '' @ str_path (data_dir self)),
           OpenWrite (data_dir self @ [''README.md''])]
    \<and> fs w2 (data_dir self @ [''README.md'']) = Some (File readme_content)
    \<and> download_gtsdb env self w2 = (Inr (), w3) \<and> performs gtsdb_event w2 w3
    \<and> download_lisa env self w3 = (Inr (), w4) \<and> performs lisa_event w3 w4
    \<and> snd (main env w) = prints final_status w4
    \<and> events (snd (main env w))
        = events w @ performed w w1 @ performed w1 w2 @ performed w2 w3 @ performed w3 w4
            @ map Print final_status"
proof -
  from assms have "script_body env w = (Inr (), snd (main env w))"
    by (rule main_zero)
  then obtain self w1 where i: "init env w = (Inr self, w1)"
    and r: "run env self w1 = (Inr (), snd (main env w))"
    unfolding script_body_def by (blast dest: and_then_Inr)
  define w1' where "w1' = prints [''Starting dataset download process...'',
                   ''Data directory: '' @ str_path (data_dir self)] w1"
  from r obtain u2 w2 where c: "create_readme self w1' = (Inr u2, w2)"
    and r2: "and_then (download_gtsdb env self w2)
          (\<lambda>_ w2. and_then (download_lisa env self w2)
             (\<lambda>_ w3. (Inr (), prints final_status w3))) = (Inr (), snd (main env w))"
    unfolding run_def w1'_def by (blast dest: and_then_Inr)
  from r2 obtain u3 w3 where g: "download_gtsdb env self w2 = (Inr u3, w3)"
    and r3: "and_then (download_lisa env self w3)
             (\<lambda>_ w3. (Inr (), prints final_status w3)) = (Inr (), snd (main env w))"
    by (blast dest: and_then_Inr)
  from r3 obtain u4 w4 where l: "download_lisa env self w3 = (Inr u4, w4)"
    and f: "(Inr () :: exn + unit, prints final_status w4) = (Inr (), snd (main env w))"
    by (blast dest: and_then_Inr)
  from f have fin: "snd (main env w) = prints final_status w4" by simp
  note i1 = init_Inr [OF i]
  have c': "create_readme self w1' = (Inr (), w2)" using c by simp
  note c1 = create_readme_Inr [OF c']
  have e1: "events w1 = events w @ [Mkdir (data_dir self)]"
    using i by (auto simp add: init_def and_then_def mkdir_parents_def Let_def
                  split: prod.splits sum.splits if_splits)
  have e1': "events w1' = events w1 @ [Print ''Starting dataset download process...'',
           Print (''Data directory: '' @ str_path (data_dir self))]"
    by (simp add: w1'_def)
  have e2: "events w2 = events w1' @ [OpenWrite (data_dir self @ [''README.md''])]"
    using c' by (auto simp add: create_readme_def write_file_def Let_def split: if_splits)
  have p12: "performed w1 w2 = [Print ''Starting dataset download process...'',
           Print (''Data directory: '' @ str_path (data_dir self)),
           OpenWrite (data_dir self @ [''README.md''])]"
    by (simp add: performed_def e2 e1')
  have pg: "performs gtsdb_event w2 w3"
    using download_gtsdb_performs [of w2 env self] g by simp
  have pl: "performs lisa_event w3 w4"
    using download_lisa_performs [of w3 env self] l by simp
  have e3: "events w3 = events w2 @ performed w2 w3"
    using pg unfolding performs_def performed_def by (metis append_take_drop_id)
  have e4: "events w4 = events w3 @ performed w3 w4"
    using pl unfolding performs_def performed_def by (metis append_take_drop_id)
  have ev: "events (snd (main env w))
        = events w @ performed w w1 @ performed w1 w2 @ performed w2 w3 @ performed w3 w4
            @ map Print final_status"
    unfolding fin events_prints e4 e3 p12 conjunct1 [OF i1]
    by (simp add: e2 e1' e1)
  have g': "download_gtsdb env self w2 = (Inr (), w3)" using g by simp
  have l': "download_lisa env self w3 = (Inr (), w4)" using l by simp
  from i i1 c' p12 c1 g' pg l' pl fin ev show ?thesis
    unfolding w1'_def by blast
qed

lemma demo_main_exit: "fst (main demo_env fresh_world) = 0"
  by code_simp

lemma demo_main_events:
  "events (snd (main demo_env fresh_world)) =
     [Mkdir [''proj'', ''data'', ''raw''],
      Print ''Starting dataset download process...'',
      Print ''Data directory: /proj/data/raw'',
      OpenWrite [''proj'', ''data'', ''raw'', ''README.md''],
      Print ''=== Downloading GTSDB Dataset ==='',
      Print ''Downloading GTSDB Full IJCNN 2013 dataset (~2.7GB)...'',
      Print ''This may take several minutes depending on your connection.'',
      Print (''Downloading '' @ gtsdb_url @ ''...''),
      Urlretrieve gtsdb_url [''proj'', ''data'', ''raw'', ''FullIJCNN2013.zip''],
      OpenWrite [''proj'', ''data'', ''raw'', ''FullIJCNN2013.zip''],
      Print ''Downloaded to /proj/data/raw/FullIJCNN2013.zip'',
      Print ''Extracting /proj/data/raw/FullIJCNN2013.zip...'',
      ZipOpen [''proj'', ''data'', ''raw'', ''FullIJCNN2013.zip''],
      ZipExtractall [''proj'', ''data'', ''raw''],
      Mkdir [''proj'', ''data'', ''raw''],
      OpenWrite [''proj'', ''data'', ''raw'', ''a.txt''],
      Print ''Extracted to /proj/data/raw'',
      Unlink [''proj'', ''data'', ''raw'', ''FullIJCNN2013.zip''],
      Print ''GTSDB download and extraction completed!'',
      Print ''=== Downloading LISA Dataset from Kaggle ==='',
      Import Probe,
      Import InSync,
      Print ''Downloading LISA traffic light dataset from Kaggle...'',
      Print ''This may take several minutes depending on your connection.'',
      DatasetDownload ''mbornoe/lisa-traffic-light-dataset'',
      Print ''Dataset downloaded to: /cache/lisa'',
      Copytree [''cache'', ''lisa''] [''proj'', ''data'', ''raw'', ''LISA''],
      Print ''LISA dataset setup completed!'']
     @ map Print final_status"
  by code_simp

theorem run_steps_in_order_witness:
  "fst (main demo_env fresh_world) = 0
   \<and> (\<exists>self w1 w2 w3 w4.
      init demo_env fresh_world = (Inr self, w1)
    \<and> performed fresh_world w1 = [Mkdir (data_dir self)] \<and> is_dir (fs w1) (data_dir self)
    \<and> create_readme self
          (prints [''Starting dataset download process...'',
                   ''Data directory: '' @ str_path (data_dir self)] w1) = (Inr (), w2)
    \<and> performed w1 w2
        = [Print ''Starting dataset download process...'',
           Print (''Data directory: '' @ str_path (data_dir self)),
           OpenWrite (data_dir self @ [''README.md''])]
    \<and> fs w2 (data_dir self @ [''README.md'']) = Some (File readme_content)
    \<and> download_gtsdb demo_env self w2 = (Inr (), w3) \<and> performs gtsdb_event w2 w3
    \<and> download_lisa demo_env self w3 = (Inr (), w4) \<and> performs lisa_event w3 w4
    \<and> snd (main demo_env fresh_world) = prints final_status w4
    \<and> events (snd (main demo_env fresh_world))
        = events fresh_world @ performed fresh_world w1 @ performed w1 w2 @ performed w2 w3
            @ performed w3 w4 @ map Print final_status)"
  using demo_main_exit run_steps_in_order [OF demo_main_exit] by (rule conjI)

subsection \<open>Where failures are caught\<close>



lemma try_except_caught:
  "body = (Inl e, w') \<Longrightarrow> is_Exception e \<Longrightarrow> try_except body handler = handler e w'"
  by (simp add: try_except_def)










subsection \<open>Where the direct dataset's members go\<close>

lemma ancestors_nonempty: "q \<in> set (ancestors_or_self p) \<Longrightarrow> q \<noteq> []"
  by (auto simp add: ancestors_or_self_def)

lemma mkdir_parents_keeps_files:
  assumes "mkdir_parents p w = (Inr (), w')" and "fs w q = Some (File c)"
  shows "fs w' q = Some (File c)"
proof -
  from assms(1) have ok: "\<not> list_ex (\<lambda>q. is_file (fs w) q) (ancestors_or_self p)"
    and w': "fs w' = make_dirs (fs w) (ancestors_or_self p)"
    by (auto simp add: mkdir_parents_def Let_def split: if_splits)
  have "q \<notin> set (ancestors_or_self p)"
  proof
    assume q: "q \<in> set (ancestors_or_self p)"
    then have "is_file (fs w) q"
      using assms(2) ancestors_nonempty [OF q] by (simp add: is_file_def)
    with q ok show False by (auto simp add: list_ex_iff)
  qed
  then show ?thesis by (simp add: w' make_dirs_apply assms(2))
qed

lemma write_file_Inr:
  "write_file p c w = (Inr (), w') \<Longrightarrow> fs w' = (fs w)(p \<mapsto> File c)"
  by (auto simp add: write_file_def Let_def split: if_splits)

lemma extract_member_keeps_files:
  assumes "extract_member dst m w = (Inr (), w')" and "fs w q = Some (File c)"
    and "q \<noteq> dst @ fst m"
  shows "fs w' q = Some (File c)"
proof (cases m)
  case (Pair rel nd)
  show ?thesis
  proof (cases nd)
    case Dir
    with Pair assms(1) have "mkdir_parents (dst @ rel) w = (Inr (), w')"
      by (simp add: extract_member_def)
    then show ?thesis using assms(2) by (rule mkdir_parents_keeps_files)
  next
    case (File c')
    with Pair assms(1) obtain u w1 where m: "mkdir_parents (parent (dst @ rel)) w = (Inr u, w1)"
      and wr: "write_file (dst @ rel) c' w1 = (Inr (), w')"
      by (auto simp add: extract_member_def dest: and_then_Inr)
    from m have "mkdir_parents (parent (dst @ rel)) w = (Inr (), w1)" by simp
    then have "fs w1 q = Some (File c)" using assms(2) by (rule mkdir_parents_keeps_files)
    then show ?thesis
      using write_file_Inr [OF wr] assms(3) Pair by simp
  qed
qed

lemma extract_member_places_file:
  assumes "extract_member dst (rel, File c) w = (Inr (), w')"
  shows "fs w' (dst @ rel) = Some (File c)"
proof -
  from assms obtain u w1 where "write_file (dst @ rel) c w1 = (Inr (), w')"
    by (auto simp add: extract_member_def dest: and_then_Inr)
  then show ?thesis by (simp add: write_file_Inr)
qed

lemma extract_members_keeps_files:
  "extract_members dst ms w = (Inr (), w') \<Longrightarrow> fs w q = Some (File c) \<Longrightarrow>
   q \<notin> (\<lambda>m. dst @ fst m) ` set ms \<Longrightarrow> fs w' q = Some (File c)"
proof (induction ms arbitrary: w)
  case Nil
  then show ?case by simp
next
  case (Cons m ms)
  from Cons.prems(1) obtain u w1 where m: "extract_member dst m w = (Inr u, w1)"
    and r: "extract_members dst ms w1 = (Inr (), w')"
    by (auto dest: and_then_Inr)
  from m have "extract_member dst m w = (Inr (), w1)" by simp
  then have "fs w1 q = Some (File c)"
    using Cons.prems(2,3) by (intro extract_member_keeps_files [of dst m w w1 q c]) auto
  with r show ?case using Cons.prems(3) by (intro Cons.IH [of w1]) auto
qed

text \<open>
  A successful extraction leaves every file member of an archive with distinct member
  paths at its path below the destination.
\<close>

lemma extract_members_places_files:
  "extract_members dst ms w = (Inr (), w') \<Longrightarrow> distinct (map fst ms) \<Longrightarrow>
   (rel, File c) \<in> set ms \<Longrightarrow> fs w' (dst @ rel) = Some (File c)"
proof (induction ms arbitrary: w)
  case Nil
  then show ?case by simp
next
  case (Cons m ms)
  from Cons.prems(1) obtain u w1 where m: "extract_member dst m w = (Inr u, w1)"
    and r: "extract_members dst ms w1 = (Inr (), w')"
    by (auto dest: and_then_Inr)
  show ?case
  proof (cases "m = (rel, File c)")
    case True
    with m have "fs w1 (dst @ rel) = Some (File c)"
      by (simp add: extract_member_places_file)
    moreover have "dst @ rel \<notin> (\<lambda>m. dst @ fst m) ` set ms"
      using Cons.prems(2) True by auto
    ultimately show ?thesis
      using r by (intro extract_members_keeps_files [of dst ms w1 w'])
  next
    case False
    with Cons.prems have "distinct (map fst ms)" and "(rel, File c) \<in> set ms" by auto
    with r show ?thesis by (intro Cons.IH [of w1])
  qed
qed

lemma extract_archive_zip:
  "lower (suffix p) = ''.zip'' \<Longrightarrow>
   extract_archive env p dst w
     = and_then (zip_extractall env p dst (print (''Extracting '' @ str_path p @ ''...'') w))
         (\<lambda>_ w2. (Inr (), print (''Extracted to '' @ str_path dst) w2))"
  by (simp add: extract_archive_def)

lemma suffix_last: "suffix (d @ [n]) = suffix [n]"
  by (simp add: suffix_def)

lemma suffix_archive_name: "lower (suffix [''FullIJCNN2013.zip'']) = ''.zip''"
  by code_simp

text \<open>
  What a successful \<open>try\<close> block of \<open>download_gtsdb\<close> leaves: the temporary archive is
  gone, and every file member of the downloaded zip (with distinct member paths, and not
  named like the temporary archive) lies at its path directly below the raw-data root.
\<close>

lemma gtsdb_try_Inr:
  assumes t: "gtsdb_try env self w = (Inr (), w')"
    and get: "http_get env gtsdb_url = Inr body"
    and dec: "zip_decode env body = Inr ms"
    and dist: "distinct (map fst ms)"
    and mem: "(rel, File c) \<in> set ms"
    and other: "rel \<noteq> [''FullIJCNN2013.zip'']"
  shows "fs w' (data_dir self @ [''FullIJCNN2013.zip'']) = None
     \<and> fs w' (data_dir self @ rel) = Some (File c)"
proof -
  define filepath where "filepath = data_dir self @ [''FullIJCNN2013.zip'']"
  define w0 where "w0 = prints [''Downloading GTSDB Full IJCNN 2013 dataset (~2.7GB)...'',
                    ''This may take several minutes depending on your connection.''] w"
  from t obtain u2 w2 u3 w3 u4 w4 where
    d: "download_file env gtsdb_url filepath None w0 = (Inr u2, w2)"
    and x: "extract_archive env filepath (data_dir self) w2 = (Inr u3, w3)"
    and ul: "unlink filepath w3 = (Inr u4, w4)"
    and fin: "w' = print ''GTSDB download and extraction completed!'' w4"
    unfolding gtsdb_try_def Let_def filepath_def [symmetric] w0_def [symmetric]
    by (fastforce dest!: and_then_Inr)
  define w1 where "w1 = print (''Downloading '' @ gtsdb_url @ ''...'') w0"
  have df: "download_file env gtsdb_url filepath None w0
      = try_except
         (and_then (urlretrieve env gtsdb_url filepath w1)
            (\<lambda>_ w1. (Inr (), print (''Downloaded to '' @ str_path filepath) w1)))
         (\<lambda>e w1. (Inl e, print (''Download failed: '' @ str_exn e) w1))"
    unfolding w1_def by (rule download_file_falsy) simp
  from d obtain wu where ur: "urlretrieve env gtsdb_url filepath w1 = (Inr (), wu)"
    unfolding df
    by (auto simp add: and_then_def try_except_def split: prod.splits sum.splits if_splits)
  then have wr: "write_file filepath body (emit (Urlretrieve gtsdb_url filepath) w1) = (Inr (), wu)"
    using get by (simp add: urlretrieve_def)
  have fwu: "fs wu filepath = Some (File body)"
    using write_file_Inr [OF wr] by simp
  have w2: "w2 = print (''Downloaded to '' @ str_path filepath) wu"
    using d unfolding df ur by (simp add: and_then_def try_except_def)
  have f2: "fs w2 filepath = Some (File body)"
    by (simp add: w2 fwu)
  define wx where "wx = print (''Extracting '' @ str_path filepath @ ''...'') w2"
  have sfx: "lower (suffix filepath) = ''.zip''"
    unfolding filepath_def by (simp only: suffix_last suffix_archive_name)
  have xa: "extract_archive env filepath (data_dir self) w2
      = and_then (zip_extractall env filepath (data_dir self) wx)
          (\<lambda>_ w2. (Inr (), print (''Extracted to '' @ str_path (data_dir self)) w2))"
    unfolding wx_def using sfx by (rule extract_archive_zip)
  from x obtain wz where z: "zip_extractall env filepath (data_dir self) wx = (Inr (), wz)"
    unfolding xa by (auto simp add: and_then_def split: prod.splits sum.splits)
  have w3: "w3 = print (''Extracted to '' @ str_path (data_dir self)) wz"
    using x unfolding xa z by (simp add: and_then_def)
  have fx: "fs wx filepath = Some (File body)" by (simp add: wx_def f2)
  from z have em: "extract_members (data_dir self) ms
          (emit (ZipExtractall (data_dir self)) (emit (ZipOpen filepath) wx)) = (Inr (), wz)"
    by (simp add: zip_extractall_def Let_def fx dec)
  have placed: "fs wz (data_dir self @ rel) = Some (File c)"
    using em dist mem by (rule extract_members_places_files)
  from ul have f4: "fs w4 = (fs w3)(filepath := None)"
    by (auto simp add: unlink_def Let_def split: if_splits)
  have ne: "data_dir self @ rel \<noteq> filepath"
    using other by (simp add: filepath_def)
  show ?thesis
    unfolding filepath_def [symmetric]
    using ne placed by (simp add: fin f4 w3)
qed

text \<open>
  C6. From an empty raw-data root, with the server answering the GTSDB URL by a zip of
  the one member \<open>a.txt\<close>, the sync succeeds and the temporary archive is gone; but the
  member lies at \<open>data/raw/a.txt\<close>, as \<open>gtsdb_try_Inr\<close> says of every archive:
  \<open>extract_archive\<close> is given the raw-data root, not the dataset's directory (as
  \<open>download_lisa\<close> gives it \<open>lisa_dir\<close>). Neither \<open>GTSDB/a.txt\<close> nor \<open>GTSDB\<close> exists, so
  the guard of the next run finds nothing and the archive is downloaded again.
\<close>

theorem download_gtsdb_extracts_into_root:
  "zip_decode demo_env demo_body = Inr [([''a.txt''], File ''hello'')]
   \<and> fst (download_gtsdb demo_env demo_self demo_world) = Inr ()
   \<and> last (events (snd (download_gtsdb demo_env demo_self demo_world)))
       = Print ''GTSDB download and extraction completed!''
   \<and> fs (snd (download_gtsdb demo_env demo_self demo_world))
        [''proj'', ''data'', ''raw'', ''FullIJCNN2013.zip''] = None
   \<and> fs (snd (download_gtsdb demo_env demo_self demo_world))
        [''proj'', ''data'', ''raw'', ''a.txt''] = Some (File ''hello'')
   \<and> fs (snd (download_gtsdb demo_env demo_self demo_world))
        [''proj'', ''data'', ''raw'', ''GTSDB'', ''a.txt''] = None
   \<and> fs (snd (download_gtsdb demo_env demo_self demo_world))
        [''proj'', ''data'', ''raw'', ''GTSDB''] = None
   \<and> Urlretrieve gtsdb_url [''proj'', ''data'', ''raw'', ''FullIJCNN2013.zip'']
        \<in> set (performed (snd (download_gtsdb demo_env demo_self demo_world))
                 (snd (download_gtsdb demo_env demo_self
                         (snd (download_gtsdb demo_env demo_self demo_world)))))"
  by code_simp

end
